theory Spec2Isabelle
  imports Complex_Main "HOL-Library.Word"
begin

section \<open>The CoreAudio device adapter (juce_mac_CoreAudio.cpp)\<close>

text \<open>
  A shallow embedding of the classes \<open>CoreAudioInternal\<close>, \<open>CoreAudioIODevice\<close> and
  \<open>CoreAudioIODeviceType\<close>. The HAL is an oracle: what it answers to the property reads
  of one refresh is a value of type \<open>os_view\<close>. Memory that the code reaches through raw
  pointers is explicit: the block \<open>audioBuffer\<close> is a list of float slots, a
  \<open>float*\<close> into it is an offset in slots from the start of the block (an integer: a
  negative one lies before the block; \<open>None\<close> is the null pointer), and every access that
  leaves its block is a \<open>fault\<close>.
\<close>

subsection \<open>Basic types\<close>

type_synonym AudioDeviceID = "32 word"
type_synonym OSType = "32 word"
type_synonym UInt32 = "32 word"

text \<open>The type \<open>int\<close> of the source has 32 bits and \<open>size_t\<close> has 64 (the LP64 data model
  of a 64-bit Mac). Arithmetic in either wraps around, \<open>sint\<close> reads an \<open>int\<close>, and an
  \<open>int\<close> that meets a \<open>size_t\<close> in an expression is sign-extended (\<open>scast\<close>).\<close>
type_synonym c_int = "32 word"
type_synonym size_t = "64 word"

text \<open>A float32 sample is its bit pattern: the code only copies samples and stores \<open>0.0f\<close>,
  which is the pattern 0 (what \<open>juce_calloc\<close> leaves as well).\<close>
type_synonym sample = "32 word"

text \<open>An \<open>AudioIODeviceCallback*\<close> is the identity of a client object; null is \<open>None\<close>.\<close>
type_synonym AudioIODeviceCallback = nat

definition maxNumChans :: nat where
  "maxNumChans = 96"

datatype fault = NullPointer | ArrayOverrun | BufferOverrun

subsection \<open>Loops\<close>

text \<open>\<open>for (x in xs) body\<close>, stopping at the first fault.\<close>
fun for_each :: "('a \<Rightarrow> 's \<Rightarrow> fault + 's) \<Rightarrow> 'a list \<Rightarrow> 's \<Rightarrow> fault + 's" where
  "for_each body [] s = Inr s"
| "for_each body (x # xs) s =
     (case body x s of Inl e \<Rightarrow> Inl e | Inr s' \<Rightarrow> for_each body xs s')"

text \<open>\<open>for (i = n; --i >= 0;) body\<close>: the indices \<open>n - 1\<close> down to 0.\<close>
fun for_down :: "nat \<Rightarrow> (nat \<Rightarrow> 's \<Rightarrow> fault + 's) \<Rightarrow> 's \<Rightarrow> fault + 's" where
  "for_down 0 body s = Inr s"
| "for_down (Suc i) body s =
     (case body i s of Inl e \<Rightarrow> Inl e | Inr s' \<Rightarrow> for_down i body s')"

subsection \<open>BitArray, Array, StringArray and String\<close>

text \<open>Modelled from the spec: the class \<open>BitArray\<close> is declared outside the source files at
  hand. A mask is the list of its bits, bit 0 first; a bit beyond the list is clear.\<close>
type_synonym BitArray = "bool list"

text \<open>Modelled from the spec: \<open>BitArray::operator[]\<close>, whether a bit of the mask is set.\<close>
definition bit_at :: "BitArray \<Rightarrow> nat \<Rightarrow> bool" where
  "bit_at m i = (i < length m \<and> m ! i)"

text \<open>Modelled from the spec: \<open>BitArray::countNumberOfSetBits\<close> ("compute
  \<open>numInputChans\<close>, \<open>numOutputChans\<close> from bit counts").\<close>
definition countNumberOfSetBits :: "BitArray \<Rightarrow> nat" where
  "countNumberOfSetBits m = length (filter (\<lambda>b. b) m)"

text \<open>Modelled from the spec: \<open>setRange (n, getHighestBit() + 1 - n, false)\<close> of
  \<open>BitArray\<close>, which clears every bit from \<open>n\<close> upwards ("truncated so that no set bit
  exceeds the known channel count").\<close>
definition clearFrom :: "nat \<Rightarrow> BitArray \<Rightarrow> BitArray" where
  "clearFrom n m = take n m"

text \<open>Modelled from the spec: \<open>BitArray::orWith\<close> ("union of master's and slave's
  active-input masks").\<close>
fun orWith :: "BitArray \<Rightarrow> BitArray \<Rightarrow> BitArray" where
  "orWith [] ys = ys"
| "orWith xs [] = xs"
| "orWith (x # xs) (y # ys) = (x \<or> y) # orWith xs ys"

text \<open>Modelled from the spec: \<open>StringArray::indexOf\<close>, declared outside the source files at
  hand ("resolves names to ids"): the position of the first equal element, -1 when there
  is none.\<close>
fun indexOf_from :: "int \<Rightarrow> 'a list \<Rightarrow> 'a \<Rightarrow> int" where
  "indexOf_from i [] x = -1"
| "indexOf_from i (y # ys) x = (if y = x then i else indexOf_from (i + 1) ys x)"

definition indexOf :: "'a list \<Rightarrow> 'a \<Rightarrow> int" where
  "indexOf xs x = indexOf_from 0 xs x"

text \<open>Modelled from the spec: \<open>Array::operator[]\<close>, declared outside the source files at
  hand. The specification is silent on an index outside the array; the class answers
  the default value there, which is 0 for an id.\<close>
definition array_get :: "'a::zero list \<Rightarrow> int \<Rightarrow> 'a" where
  "array_get xs i = (if 0 \<le> i \<and> i < int (length xs) then xs ! nat i else 0)"

text \<open>Modelled from the spec: \<open>Array::addIfNotAlreadyThere\<close>, declared outside the source
  files at hand ("including the current \<open>bufferSize\<close> if absent").\<close>
definition addIfNotAlreadyThere :: "'a \<Rightarrow> 'a list \<Rightarrow> 'a list" where
  "addIfNotAlreadyThere x xs = (if x \<in> set xs then xs else xs @ [x])"

text \<open>Modelled from the spec: \<open>String (n)\<close> of the class \<open>String\<close>, declared outside the
  source files at hand, for a non-negative \<open>n\<close>: its decimal digits ("input k", "output
  k").\<close>
fun string_of_nat :: "nat \<Rightarrow> string" where
  "string_of_nat n =
     (if n < 10 then [''0123456789'' ! n]
      else string_of_nat (n div 10) @ [''0123456789'' ! (n mod 10)])"

declare string_of_nat.simps [simp del]

subsection \<open>What the HAL answers\<close>

text \<open>One field for each property the code reads; \<open>None\<close> when the read (or the size query
  before it) does not return \<open>noErr\<close>. An \<open>AudioValueRange\<close> is the pair of its
  \<open>mMinimum\<close> and \<open>mMaximum\<close>; a \<open>Float64\<close> is a real number (no NaN, no infinity). A
  stream configuration is the list of the \<open>mNumberChannels\<close> of its buffers.\<close>
record os_view =
  os_NominalSampleRate :: "real option"
  os_BufferFrameSize :: "UInt32 option"
  os_BufferFrameSizeRange :: "(real \<times> real) list option"
  os_AvailableNominalSampleRates :: "(real \<times> real) list option"
  os_InputLatency :: "UInt32 option"
  os_OutputLatency :: "UInt32 option"
  os_InputStreamConfiguration :: "nat list option"
  os_OutputStreamConfiguration :: "nat list option"

subsection \<open>CoreAudioInternal\<close>

record CallbackDetailsForChannel =
  sourceChannelNum :: nat
  streamNum :: nat
  dataOffsetSamples :: nat
  dataStrideSamples :: nat

definition zeroInfo :: CallbackDetailsForChannel where
  "zeroInfo = \<lparr>sourceChannelNum = 0, streamNum = 0, dataOffsetSamples = 0, dataStrideSamples = 0\<rparr>"

text \<open>The fields of one \<open>CoreAudioInternal\<close> but \<open>inputDevice\<close>. \<open>timerRunning\<close> is the
  state of the \<open>Timer\<close> base class (armed by \<open>startTimer\<close>, disarmed by \<open>stopTimer\<close>). The four arrays have \<open>maxNumChans\<close> elements.
  \<open>audioBuffer\<close> is the block it points to, in float slots; the null pointer is the
  empty block.\<close>
record core =
  deviceID :: AudioDeviceID
  started :: bool
  audioBuffer :: "sample list"
  numInputChans :: nat
  numOutputChans :: nat
  callbacksAllowed :: bool
  numInputChannelInfos :: nat
  numOutputChannelInfos :: nat
  inputLatency :: int
  outputLatency :: int
  callback :: "AudioIODeviceCallback option"
  isSlaveDevice :: bool
  error :: string
  activeInputChans :: BitArray
  activeOutputChans :: BitArray
  inChanNames :: "string list"
  outChanNames :: "string list"
  sampleRates :: "real list"
  bufferSizes :: "int list"
  sampleRate :: real
  bufferSize :: int
  inputChannelInfo :: "CallbackDetailsForChannel list"
  outputChannelInfo :: "CallbackDetailsForChannel list"
  tempInputBuffers :: "int option list"
  tempOutputBuffers :: "int option list"
  timerRunning :: bool

datatype CoreAudioInternal =
  Internal (this: core) (inputDevice: "CoreAudioInternal option")

subsubsection \<open>setTempBufferSize\<close>

text \<open>The argument of \<open>juce_calloc\<close>, in bytes: \<open>numChannels * numSamples\<close> is a product
  of two \<open>int\<close>, the rest is computed in \<open>size_t\<close> (\<open>sizeof (float)\<close> is 4).\<close>
definition tempBufferBytes :: "c_int \<Rightarrow> c_int \<Rightarrow> size_t" where
  "tempBufferBytes numChannels numSamples = 32 + scast (numChannels * numSamples) * 4"

text \<open>\<open>ptrs[i] = audioBuffer + count++ * numSamples\<close>, for \<open>i\<close> from 0 below \<open>n\<close>; the
  state of the loop is \<open>count\<close> and the array. The product is one of two \<open>int\<close>.\<close>
definition assign_view :: "c_int \<Rightarrow> nat \<Rightarrow> c_int \<times> int option list \<Rightarrow> fault + c_int \<times> int option list" where
  "assign_view numSamples i st =
     (case st of (count, ptrs) \<Rightarrow>
        if i < length ptrs then Inr (count + 1, ptrs[i := Some (sint (count * numSamples))])
        else Inl ArrayOverrun)"

text \<open>\<open>setTempBufferSize\<close>. The block that \<open>juce_calloc\<close> hands out is zeroed and holds the
  float slots that fit into the bytes asked for; the allocation is taken to succeed.\<close>
definition setTempBufferSize :: "c_int \<Rightarrow> c_int \<Rightarrow> core \<Rightarrow> fault + core" where
  "setTempBufferSize numChannels numSamples c =
     (let buf = replicate (unat (tempBufferBytes numChannels numSamples) div 4) (0 :: sample);
          zeroed = replicate maxNumChans None
      in case for_each (assign_view numSamples) [0 ..< numInputChans c] (0, zeroed) of
           Inl e \<Rightarrow> Inl e
         | Inr (count, ins) \<Rightarrow>
             (case for_each (assign_view numSamples) [0 ..< numOutputChans c] (count, zeroed) of
                Inl e \<Rightarrow> Inl e
              | Inr (count', outs) \<Rightarrow>
                  Inr (c\<lparr>audioBuffer := buf, tempInputBuffers := ins,
                         tempOutputBuffers := outs\<rparr>)))"

subsubsection \<open>fillInChannelInfo\<close>

text \<open>The body of the inner loop, for channel \<open>j\<close> of stream \<open>i\<close> with \<open>n\<close> channels; the
  state is \<open>chanNum\<close>, \<open>activeChans\<close> and the object.\<close>
definition fill_channel ::
  "bool \<Rightarrow> nat \<Rightarrow> nat \<Rightarrow> nat \<Rightarrow> nat \<times> nat \<times> core \<Rightarrow> fault + nat \<times> nat \<times> core" where
  "fill_channel input i n j st =
     (case st of (chanNum, activeChans, c) \<Rightarrow>
        let info = \<lparr>sourceChannelNum = chanNum, streamNum = i, dataOffsetSamples = j,
                    dataStrideSamples = n\<rparr>
        in if input then
             (let name = ''input '' @ string_of_nat (chanNum + 1) in
              if bit_at (activeInputChans c) chanNum then
                (if activeChans < length (inputChannelInfo c) then
                   Inr (Suc chanNum, Suc activeChans,
                        c\<lparr>inputChannelInfo := (inputChannelInfo c)[activeChans := info],
                          numInputChannelInfos := Suc activeChans,
                          inChanNames := inChanNames c @ [name]\<rparr>)
                 else Inl ArrayOverrun)
              else Inr (Suc chanNum, activeChans, c\<lparr>inChanNames := inChanNames c @ [name]\<rparr>))
           else
             (let name = ''output '' @ string_of_nat (chanNum + 1) in
              if bit_at (activeOutputChans c) chanNum then
                (if activeChans < length (outputChannelInfo c) then
                   Inr (Suc chanNum, Suc activeChans,
                        c\<lparr>outputChannelInfo := (outputChannelInfo c)[activeChans := info],
                          numOutputChannelInfos := Suc activeChans,
                          outChanNames := outChanNames c @ [name]\<rparr>)
                 else Inl ArrayOverrun)
              else Inr (Suc chanNum, activeChans, c\<lparr>outChanNames := outChanNames c @ [name]\<rparr>)))"

definition fill_stream ::
  "bool \<Rightarrow> nat \<times> nat \<Rightarrow> nat \<times> nat \<times> core \<Rightarrow> fault + nat \<times> nat \<times> core" where
  "fill_stream input b st =
     (case b of (i, n) \<Rightarrow> for_each (fill_channel input i n) [0 ..< n] st)"

definition fillInChannelInfo :: "bool \<Rightarrow> os_view \<Rightarrow> core \<Rightarrow> fault + core" where
  "fillInChannelInfo input v c =
     (case (if input then os_InputStreamConfiguration v else os_OutputStreamConfiguration v) of
        None \<Rightarrow> Inr c
      | Some bufList \<Rightarrow>
          (case for_each (fill_stream input) (zip [0 ..< length bufList] bufList) (0, 0, c) of
             Inl e \<Rightarrow> Inl e
           | Inr (chanNum, activeChans, c') \<Rightarrow> Inr c'))"

subsubsection \<open>updateDetailsFromDevice\<close>

text \<open>\<open>(int) x\<close> for a \<open>Float64\<close>: towards zero. For a value that no \<open>int\<close> holds the
  language leaves the result open; the conversion instruction of the Intel processors
  (\<open>cvttsd2si\<close>) answers \<open>INT_MIN\<close> there, which is what is taken here.\<close>
definition trunc_int :: "real \<Rightarrow> int" where
  "trunc_int x =
     (let t = (if 0 \<le> x then \<lfloor>x\<rfloor> else \<lceil>x\<rceil>)
      in if - 2147483648 \<le> t \<and> t \<le> 2147483647 then t else - 2147483648)"

definition in_some_range :: "(real \<times> real) list \<Rightarrow> int \<Rightarrow> bool" where
  "in_some_range ranges i =
     list_ex (\<lambda>r. fst r \<le> real_of_int i \<and> real_of_int i \<le> snd r) ranges"

text \<open>The loop \<open>for (i = 32; i < 8192; i += 32)\<close>.\<close>
definition add_grid :: "(real \<times> real) list \<Rightarrow> int list \<Rightarrow> int list" where
  "add_grid ranges sizes =
     foldl (\<lambda>acc i. if in_some_range ranges i then addIfNotAlreadyThere i acc else acc)
       sizes (map (\<lambda>k. 32 * int k) [1 ..< 256])"

text \<open>The block that rebuilds \<open>bufferSizes\<close>. With an empty range list the code reads
  \<open>ranges[0]\<close> from a block of 0 bytes.\<close>
definition readBufferSizes :: "os_view \<Rightarrow> int \<Rightarrow> fault + int list" where
  "readBufferSizes v bufSize =
     (case (case os_BufferFrameSizeRange v of
              None \<Rightarrow> Inr []
            | Some [] \<Rightarrow> Inl BufferOverrun
            | Some (r # rs) \<Rightarrow>
                (let sizes = add_grid (r # rs) [trunc_int (fst r)]
                 in Inr (if bufSize > 0 then addIfNotAlreadyThere bufSize sizes else sizes))) of
        Inl e \<Rightarrow> Inl e
      | Inr sizes \<Rightarrow> Inr (if sizes = [] \<and> bufSize > 0 then [bufSize] else sizes))"

definition possibleRates :: "real list" where
  "possibleRates = [44100, 48000, 88200, 96000, 176400, 192000]"

definition readSampleRates :: "os_view \<Rightarrow> real \<Rightarrow> real list" where
  "readSampleRates v rate =
     (let rates = (case os_AvailableNominalSampleRates v of
                     None \<Rightarrow> []
                   | Some ranges \<Rightarrow>
                       filter (\<lambda>p. list_ex (\<lambda>r. fst r - 2 \<le> p \<and> p \<le> snd r + 2) ranges)
                         possibleRates)
      in if rates = [] \<and> rate > 0 then [rate] else rates)"

text \<open>The first block of \<open>updateDetailsFromDevice\<close>: the nominal sample rate, the buffer
  frame size and, with it, the temp buffers.\<close>
definition read_rate_and_size :: "os_view \<Rightarrow> core \<Rightarrow> fault + core" where
  "read_rate_and_size v c1 =
     (let c2 = (case os_NominalSampleRate v of None \<Rightarrow> c1 | Some sr \<Rightarrow> c1\<lparr>sampleRate := sr\<rparr>)
      in case os_BufferFrameSize v of
           None \<Rightarrow> Inr c2
         | Some framesPerBuf \<Rightarrow>
             (let c3 = c2\<lparr>bufferSize := sint framesPerBuf\<rparr>
              in if bufferSize c3 > 0
                 then setTempBufferSize (word_of_nat (numInputChans c3 + numOutputChans c3))
                        (word_of_int (bufferSize c3)) c3
                 else Inr c3))"

text \<open>The fields written between the first block and the two calls of
  \<open>fillInChannelInfo\<close>; \<open>sizes\<close> is the new \<open>bufferSizes\<close>.\<close>
definition read_lists :: "os_view \<Rightarrow> int list \<Rightarrow> core \<Rightarrow> core" where
  "read_lists v sizes c4 =
     c4\<lparr>bufferSizes := sizes,
        sampleRates := readSampleRates v (sampleRate c4),
        inputLatency := (case os_InputLatency v of None \<Rightarrow> 0 | Some lat \<Rightarrow> sint lat),
        outputLatency := (case os_OutputLatency v of None \<Rightarrow> 0 | Some lat \<Rightarrow> sint lat),
        inChanNames := [], outChanNames := [],
        inputChannelInfo := replicate maxNumChans zeroInfo,
        outputChannelInfo := replicate maxNumChans zeroInfo\<rparr>"

definition updateDetailsFromDevice :: "os_view \<Rightarrow> core \<Rightarrow> fault + core" where
  "updateDetailsFromDevice v c0 =
     (let c1 = c0\<lparr>timerRunning := False\<rparr> in
      if deviceID c1 = 0 then Inr c1
      else
        (case read_rate_and_size v c1 of
           Inl e \<Rightarrow> Inl e
         | Inr c4 \<Rightarrow>
             (case readBufferSizes v (bufferSize c4) of
                Inl e \<Rightarrow> Inl e
              | Inr sizes \<Rightarrow>
                  (case fillInChannelInfo True v (read_lists v sizes c4) of
                     Inl e \<Rightarrow> Inl e
                   | Inr c6 \<Rightarrow> fillInChannelInfo False v c6))))"

subsubsection \<open>stop, reopen, start\<close>

text \<open>What \<open>stop\<close> does to the object itself. The loop that then polls
  \<open>kAudioDevicePropertyDeviceIsRunning\<close> (40 times, 50 ms apart) writes no field.\<close>
definition stop_this :: "bool \<Rightarrow> core \<Rightarrow> core" where
  "stop_this leaveInterruptRunning c =
     (let c1 = c\<lparr>callback := None\<rparr>
      in if started c1 \<and> deviceID c1 \<noteq> 0 \<and> \<not> leaveInterruptRunning
         then c1\<lparr>started := False\<rparr> else c1)"

primrec stop :: "bool \<Rightarrow> CoreAudioInternal \<Rightarrow> CoreAudioInternal" where
  "stop leaveInterruptRunning (Internal c inp) =
     Internal (stop_this leaveInterruptRunning c) (map_option (stop leaveInterruptRunning) inp)"

text \<open>What the polling loop of \<open>reopen\<close> does, as a trace: \<open>Poll r b\<close> is one
  \<open>updateDetailsFromDevice\<close> after which the object holds sample rate \<open>r\<close> and buffer size
  \<open>b\<close>, \<open>Sleep ms\<close> is one \<open>Thread::sleep\<close>.\<close>
datatype os_event = Poll real int | Sleep nat

text \<open>\<open>while (--i >= 0)\<close>: the first argument after the requested values is \<open>i\<close> before the
  decrement, the next the number of polls made so far (the HAL answers poll \<open>k\<close> with
  \<open>os k\<close>). The result starts with the value of \<open>i\<close> behind the loop.\<close>
fun poll_loop ::
  "(nat \<Rightarrow> os_view) \<Rightarrow> real \<Rightarrow> int \<Rightarrow> nat \<Rightarrow> nat \<Rightarrow> core \<Rightarrow> fault + int \<times> os_event list \<times> core" where
  "poll_loop os newSampleRate bufferSizeSamples 0 k c = Inr (- 1, [], c)"
| "poll_loop os newSampleRate bufferSizeSamples (Suc i) k c =
     (case updateDetailsFromDevice (os k) c of
        Inl e \<Rightarrow> Inl e
      | Inr c' \<Rightarrow>
          if sampleRate c' = newSampleRate \<and> bufferSizeSamples = bufferSize c'
          then Inr (int i, [Poll (sampleRate c') (bufferSize c')], c')
          else (case poll_loop os newSampleRate bufferSizeSamples i (Suc k) c' of
                  Inl e \<Rightarrow> Inl e
                | Inr (i', evs, c'') \<Rightarrow>
                    Inr (i', Poll (sampleRate c') (bufferSize c') # Sleep 100 # evs, c'')))"

text \<open>The part of \<open>reopen\<close> before the loop, on the object itself.\<close>
definition reopen_begin :: "BitArray \<Rightarrow> BitArray \<Rightarrow> core \<Rightarrow> core" where
  "reopen_begin inputChannels outputChannels c =
     (let c1 = stop_this False (c\<lparr>error := [], callbacksAllowed := False, timerRunning := False\<rparr>);
          ins = clearFrom (length (inChanNames c1)) inputChannels;
          outs = clearFrom (length (outChanNames c1)) outputChannels
      in c1\<lparr>activeInputChans := ins, activeOutputChans := outs,
            numInputChans := countNumberOfSetBits ins,
            numOutputChans := countNumberOfSetBits outs\<rparr>)"

text \<open>The three tests behind the loop.\<close>
definition reopen_errors :: "int \<Rightarrow> core \<Rightarrow> core" where
  "reopen_errors i c =
     (let c1 = (if i < 0 then c\<lparr>error := ''Couldn't change sample rate/buffer size''\<rparr> else c);
          c2 = (if sampleRates c1 = [] then c1\<lparr>error := ''Device has no available sample-rates''\<rparr> else c1)
      in if bufferSizes c2 = [] then c2\<lparr>error := ''Device has no available buffer-sizes''\<rparr> else c2)"

text \<open>\<open>reopen\<close>. \<open>os id k\<close> is what the HAL answers to poll \<open>k\<close> of device \<open>id\<close>; the four
  \<open>AudioDeviceSetProperty\<close> requests go to the HAL and write no field. The result is the
  returned string, one trace for each object that ran its loop (this one first), and the
  objects.\<close>
function reopen ::
  "(AudioDeviceID \<Rightarrow> nat \<Rightarrow> os_view) \<Rightarrow> BitArray \<Rightarrow> BitArray \<Rightarrow> real \<Rightarrow> int \<Rightarrow> CoreAudioInternal
     \<Rightarrow> fault + string \<times> os_event list list \<times> CoreAudioInternal" where
  "reopen os inputChannels outputChannels newSampleRate bufferSizeSamples (Internal c inp) =
     (let c1 = reopen_begin inputChannels outputChannels c
      in case poll_loop (os (deviceID c1)) newSampleRate bufferSizeSamples 30 0 c1 of
           Inl e \<Rightarrow> Inl e
         | Inr (i, evs, c2) \<Rightarrow>
             (let c3 = reopen_errors i c2
              in case inp of
                   None \<Rightarrow> Inr (error c3, [evs], Internal (c3\<lparr>callbacksAllowed := True\<rparr>) None)
                 | Some d \<Rightarrow>
                     if error c3 = [] then
                       (case reopen os inputChannels outputChannels newSampleRate
                               bufferSizeSamples (stop False d) of
                          Inl e \<Rightarrow> Inl e
                        | Inr (err, evss, d') \<Rightarrow>
                            Inr (err, evs # evss,
                                 Internal (c3\<lparr>error := err, callbacksAllowed := True\<rparr>) (Some d')))
                     else Inr (error c3, [evs],
                               Internal (c3\<lparr>callbacksAllowed := True\<rparr>) (Some (stop False d)))))"
  by pat_completeness auto
termination
proof (relation "measure (\<lambda>(os, ins, outs, sr, bs, dev). size dev)")
  have size_stop: "size (stop l d) = size d" for l d
  proof (induction d)
    case (Internal c inp)
    then show ?case by (cases inp) simp_all
  qed
  show "wf (measure (\<lambda>(os, ins, outs, sr, bs, dev). size dev))"
    by simp
  show "((os, inputChannels, outputChannels, newSampleRate, bufferSizeSamples, stop False d),
         (os, inputChannels, outputChannels, newSampleRate, bufferSizeSamples, Internal c inp))
        \<in> measure (\<lambda>(os, ins, outs, sr, bs, dev). size dev)"
    if "inp = Some d"
    for os inputChannels outputChannels newSampleRate bufferSizeSamples c inp d
    using that by (simp add: size_stop)
qed

text \<open>What \<open>start\<close> does to the object itself; \<open>addIOProc id\<close> and \<open>deviceStart id\<close> tell
  whether \<open>AudioDeviceAddIOProc\<close> and \<open>AudioDeviceStart\<close> return \<open>noErr\<close>.\<close>
definition start_this ::
  "(AudioDeviceID \<Rightarrow> bool) \<Rightarrow> (AudioDeviceID \<Rightarrow> bool) \<Rightarrow> AudioIODeviceCallback option \<Rightarrow> core \<Rightarrow> core" where
  "start_this addIOProc deviceStart cb c =
     (let c1 = (if \<not> started c then
                  (let c' = c\<lparr>callback := None\<rparr>
                   in if deviceID c' \<noteq> 0 \<and> addIOProc (deviceID c') \<and> deviceStart (deviceID c')
                      then c'\<lparr>started := True\<rparr> else c')
                else c)
      in if started c1 then c1\<lparr>callback := cb\<rparr> else c1)"

fun start ::
  "(AudioDeviceID \<Rightarrow> bool) \<Rightarrow> (AudioDeviceID \<Rightarrow> bool) \<Rightarrow> AudioIODeviceCallback option
     \<Rightarrow> CoreAudioInternal \<Rightarrow> bool \<times> CoreAudioInternal" where
  "start addIOProc deviceStart cb (Internal c None) =
     (let c' = start_this addIOProc deviceStart cb c in (started c', Internal c' None))"
| "start addIOProc deviceStart cb (Internal c (Some d)) =
     (let c' = start_this addIOProc deviceStart cb c
      in if started c'
         then (case start addIOProc deviceStart cb d of (r, d') \<Rightarrow> (r, Internal c' (Some d')))
         else (False, Internal c' (Some d)))"

subsubsection \<open>audioCallback\<close>

text \<open>The three inner loops, each \<open>for (j = bufferSize; --j >= 0;)\<close>; the last argument is
  the number of rounds left. \<open>copy_in\<close> is \<open>*dest++ = *src; src += stride\<close> from an OS
  buffer into \<open>audioBuffer\<close>, \<open>copy_out\<close> is \<open>*dest = *src++; dest += stride\<close> from
  \<open>audioBuffer\<close> into an OS buffer, \<open>zero_out\<close> is \<open>*dest = 0.0f; dest += stride\<close>.\<close>
fun copy_in ::
  "sample list \<Rightarrow> nat \<Rightarrow> nat \<Rightarrow> sample list \<Rightarrow> int option \<Rightarrow> nat \<Rightarrow> fault + sample list" where
  "copy_in src sp stride buf dest 0 = Inr buf"
| "copy_in src sp stride buf dest (Suc n) =
     (case dest of
        None \<Rightarrow> Inl NullPointer
      | Some d \<Rightarrow>
          if sp < length src \<and> 0 \<le> d \<and> d < int (length buf)
          then copy_in src (sp + stride) stride (buf[nat d := src ! sp]) (Some (d + 1)) n
          else Inl BufferOverrun)"

fun copy_out ::
  "sample list \<Rightarrow> int option \<Rightarrow> sample list \<Rightarrow> nat \<Rightarrow> nat \<Rightarrow> nat \<Rightarrow> fault + sample list" where
  "copy_out buf src dst dp stride 0 = Inr dst"
| "copy_out buf src dst dp stride (Suc n) =
     (case src of
        None \<Rightarrow> Inl NullPointer
      | Some s \<Rightarrow>
          if 0 \<le> s \<and> s < int (length buf) \<and> dp < length dst
          then copy_out buf (Some (s + 1)) (dst[dp := buf ! nat s]) (dp + stride) stride n
          else Inl BufferOverrun)"

fun zero_out :: "sample list \<Rightarrow> nat \<Rightarrow> nat \<Rightarrow> nat \<Rightarrow> fault + sample list" where
  "zero_out dst dp stride 0 = Inr dst"
| "zero_out dst dp stride (Suc n) =
     (if dp < length dst then zero_out (dst[dp := 0]) (dp + stride) stride n
      else Inl BufferOverrun)"

text \<open>The body of the loop over the input channels; \<open>inData\<close> is the list of the
  \<open>mData\<close> blocks of \<open>inInputData\<close>.\<close>
definition copy_input_channel :: "sample list list \<Rightarrow> nat \<Rightarrow> core \<Rightarrow> fault + core" where
  "copy_input_channel inData i c =
     (if i < length (inputChannelInfo c) then
        (let info = inputChannelInfo c ! i in
         if sourceChannelNum info < length (tempInputBuffers c) then
           (let dest = tempInputBuffers c ! sourceChannelNum info;
                stride = dataStrideSamples info
            in if stride \<noteq> 0 then
                 (if streamNum info < length inData then
                    (case copy_in (inData ! streamNum info) (dataOffsetSamples info) stride
                            (audioBuffer c) dest (nat (bufferSize c)) of
                       Inl e \<Rightarrow> Inl e
                     | Inr buf \<Rightarrow> Inr (c\<lparr>audioBuffer := buf\<rparr>))
                  else Inl BufferOverrun)
               else Inr c)
         else Inl ArrayOverrun)
      else Inl ArrayOverrun)"

text \<open>The body of the loop over the output channels, behind the client's call.\<close>
definition copy_output_channel :: "core \<Rightarrow> nat \<Rightarrow> sample list list \<Rightarrow> fault + sample list list" where
  "copy_output_channel c i outData =
     (if i < length (outputChannelInfo c) \<and> i < length (tempOutputBuffers c) then
        (let info = outputChannelInfo c ! i;
             src = tempOutputBuffers c ! i;
             stride = dataStrideSamples info
         in if stride \<noteq> 0 then
              (if streamNum info < length outData then
                 (case copy_out (audioBuffer c) src (outData ! streamNum info)
                         (dataOffsetSamples info) stride (nat (bufferSize c)) of
                    Inl e \<Rightarrow> Inl e
                  | Inr b \<Rightarrow> Inr (outData[streamNum info := b]))
               else Inl BufferOverrun)
            else Inr outData)
      else Inl ArrayOverrun)"

text \<open>The body of the loop that runs when no client is bound.\<close>
definition zero_output_channel :: "core \<Rightarrow> nat \<Rightarrow> sample list list \<Rightarrow> fault + sample list list" where
  "zero_output_channel c i outData =
     (if i < length (outputChannelInfo c) then
        (let info = outputChannelInfo c ! i;
             stride = dataStrideSamples info
         in if stride \<noteq> 0 then
              (if streamNum info < length outData then
                 (case zero_out (outData ! streamNum info) (dataOffsetSamples info) stride
                         (nat (bufferSize c)) of
                    Inl e \<Rightarrow> Inl e
                  | Inr b \<Rightarrow> Inr (outData[streamNum info := b]))
               else Inl BufferOverrun)
            else Inr outData)
      else Inl ArrayOverrun)"

text \<open>What the client sees behind the first \<open>n\<close> pointers of a pointer array: for each the
  \<open>frames\<close> slots of the block from the pointer on (none behind a null pointer or a
  pointer that lies before the block).\<close>
definition channel_views :: "sample list \<Rightarrow> int option list \<Rightarrow> nat \<Rightarrow> nat \<Rightarrow> sample list list" where
  "channel_views buf ptrs n frames =
     map (\<lambda>p. case p of
                 None \<Rightarrow> []
               | Some off \<Rightarrow> if off < 0 then [] else take frames (drop (nat off) buf))
       (take n ptrs)"

text \<open>A client is a function: from the object called, the input channels and the three
  counts of \<open>audioDeviceIOCallback\<close> to the sample it leaves in frame \<open>k\<close> of output channel
  \<open>i\<close>. It writes the whole of every output channel, as its contract asks, through the
  pointers \<open>tempOutputBuffers[i]\<close>.\<close>
type_synonym client_io =
  "AudioIODeviceCallback \<Rightarrow> sample list list \<Rightarrow> nat \<Rightarrow> nat \<Rightarrow> int \<Rightarrow> nat \<Rightarrow> nat \<Rightarrow> sample"

fun client_write :: "(nat \<Rightarrow> sample) \<Rightarrow> int option \<Rightarrow> nat list \<Rightarrow> sample list \<Rightarrow> fault + sample list" where
  "client_write g dest [] buf = Inr buf"
| "client_write g dest (k # ks) buf =
     (case dest of
        None \<Rightarrow> Inl NullPointer
      | Some d \<Rightarrow>
          if 0 \<le> d + int k \<and> d + int k < int (length buf)
          then client_write g dest ks (buf[nat (d + int k) := g k])
          else Inl BufferOverrun)"

definition client_channel :: "(nat \<Rightarrow> nat \<Rightarrow> sample) \<Rightarrow> nat \<Rightarrow> nat \<Rightarrow> core \<Rightarrow> fault + core" where
  "client_channel g frames i c =
     (if i < length (tempOutputBuffers c) then
        (case client_write (g i) (tempOutputBuffers c ! i) [0 ..< frames] (audioBuffer c) of
           Inl e \<Rightarrow> Inl e
         | Inr buf \<Rightarrow> Inr (c\<lparr>audioBuffer := buf\<rparr>))
      else Inl ArrayOverrun)"

text \<open>The calls that reach a client.\<close>
datatype client_event =
  AboutToStart AudioIODeviceCallback
| IOCallback AudioIODeviceCallback nat nat int
| Stopped AudioIODeviceCallback

text \<open>\<open>audioCallback\<close>. The result is the calls made to the client, the object and the list
  of the \<open>mData\<close> blocks of \<open>outOutputData\<close>.\<close>
definition audioCallback ::
  "client_io \<Rightarrow> CoreAudioInternal \<Rightarrow> sample list list \<Rightarrow> sample list list
     \<Rightarrow> fault + client_event list \<times> CoreAudioInternal \<times> sample list list" where
  "audioCallback client dev inData outData =
     (case dev of Internal c inp \<Rightarrow>
        (case callback c of
           Some cb \<Rightarrow>
             (case (if inp = None then for_down (numInputChans c) (copy_input_channel inData) c
                    else Inr c) of
                Inl e \<Rightarrow> Inl e
              | Inr c1 \<Rightarrow>
                  if \<not> isSlaveDevice c1 then
                    (let (ins, numIn) =
                           (case inp of
                              None \<Rightarrow>
                                (channel_views (audioBuffer c1) (tempInputBuffers c1)
                                   (numInputChans c1) (nat (bufferSize c1)),
                                 numInputChans c1)
                            | Some d \<Rightarrow>
                                (channel_views (audioBuffer (this d)) (tempInputBuffers (this d))
                                   (numInputChans (this d)) (nat (bufferSize c1)),
                                 numInputChans (this d)));
                         g = client cb ins numIn (numOutputChans c1) (bufferSize c1)
                     in case for_each (client_channel g (nat (bufferSize c1)))
                               [0 ..< numOutputChans c1] c1 of
                          Inl e \<Rightarrow> Inl e
                        | Inr c2 \<Rightarrow>
                            (case for_down (numOutputChans c2) (copy_output_channel c2) outData of
                               Inl e \<Rightarrow> Inl e
                             | Inr outData' \<Rightarrow>
                                 Inr ([IOCallback cb numIn (numOutputChans c1) (bufferSize c1)],
                                      Internal c2 inp, outData')))
                  else Inr ([], Internal c1 inp, outData))
         | None \<Rightarrow>
             (case for_down (min (numOutputChans c) (numOutputChannelInfos c))
                     (zero_output_channel c) outData of
                Inl e \<Rightarrow> Inl e
              | Inr outData' \<Rightarrow> Inr ([], Internal c inp, outData'))))"

subsubsection \<open>deviceDetailsChanged and timerCallback\<close>

definition deviceDetailsChanged :: "core \<Rightarrow> core" where
  "deviceDetailsChanged c = (if callbacksAllowed c then c\<lparr>timerRunning := True\<rparr> else c)"


subsubsection \<open>Data sources\<close>

text \<open>What the HAL answers about the data sources of one direction of a device: the current
  source (\<open>kAudioDevicePropertyDataSource\<close>) and the list of all of them
  (\<open>kAudioDevicePropertyDataSources\<close>), each \<open>None\<close> when the read fails. \<open>src_beyond\<close>
  is the \<open>OSType\<close> that lies in memory right behind the block holding the list.\<close>
record os_sources =
  src_DataSource :: "OSType option"
  src_DataSources :: "OSType list option"
  src_beyond :: OSType

definition getAllDataSourcesForDevice :: "os_sources \<Rightarrow> AudioDeviceID \<Rightarrow> OSType list option" where
  "getAllDataSourcesForDevice os devID = (if devID \<noteq> 0 then src_DataSources os else None)"

text \<open>\<open>types[i]\<close> for the block \<open>types\<close> of \<open>num\<close> elements: element \<open>num\<close> is the word
  behind the block.\<close>
definition types_at :: "os_sources \<Rightarrow> OSType list \<Rightarrow> nat \<Rightarrow> OSType" where
  "types_at os types i = (if i < length types then types ! i else src_beyond os)"

text \<open>The loop of \<open>getCurrentSourceIndex\<close> over the indices still to visit.\<close>
fun source_scan :: "os_sources \<Rightarrow> OSType list \<Rightarrow> OSType \<Rightarrow> nat list \<Rightarrow> int" where
  "source_scan os types currentSourceID [] = - 1"
| "source_scan os types currentSourceID (i # rest) =
     (if types_at os types (length types) = currentSourceID then int i
      else source_scan os types currentSourceID rest)"

definition getCurrentSourceIndex :: "os_sources \<Rightarrow> core \<Rightarrow> int" where
  "getCurrentSourceIndex os c =
     (if deviceID c \<noteq> 0 then
        (case src_DataSource os of
           None \<Rightarrow> - 1
         | Some currentSourceID \<Rightarrow>
             (case getAllDataSourcesForDevice os (deviceID c) of
                None \<Rightarrow> - 1
              | Some types \<Rightarrow> source_scan os types currentSourceID [0 ..< length types]))
      else - 1)"

subsubsection \<open>The constructor\<close>

text \<open>The fields as the initialiser list and the first two assignments leave them. The
  constructor does not initialise the four arrays; they are taken as zeroed. \<open>TRANS\<close>
  answers its argument when no translation is installed.\<close>
definition initial_core :: "AudioDeviceID \<Rightarrow> core" where
  "initial_core devID =
     \<lparr>deviceID = devID, started = False, audioBuffer = [], numInputChans = 0,
      numOutputChans = 0, callbacksAllowed = True, numInputChannelInfos = 0,
      numOutputChannelInfos = 0, inputLatency = 0, outputLatency = 0, callback = None,
      isSlaveDevice = False, error = [], activeInputChans = [], activeOutputChans = [],
      inChanNames = [], outChanNames = [], sampleRates = [], bufferSizes = [],
      sampleRate = 0, bufferSize = 512,
      inputChannelInfo = replicate maxNumChans zeroInfo,
      outputChannelInfo = replicate maxNumChans zeroInfo,
      tempInputBuffers = replicate maxNumChans None,
      tempOutputBuffers = replicate maxNumChans None,
      timerRunning = False\<rparr>"

definition CoreAudioInternal_new :: "os_view \<Rightarrow> AudioDeviceID \<Rightarrow> fault + CoreAudioInternal" where
  "CoreAudioInternal_new v devID =
     (if devID = 0 then Inr (Internal ((initial_core devID)\<lparr>error := ''can't open device''\<rparr>) None)
      else (case updateDetailsFromDevice v (initial_core devID) of
              Inl e \<Rightarrow> Inl e
            | Inr c \<Rightarrow> Inr (Internal c None)))"

subsection \<open>CoreAudioIODevice\<close>

record CoreAudioIODevice =
  deviceName :: string
  inputIndex :: int
  outputIndex :: int
  isOpen' :: bool
  isStarted :: bool
  lastError :: string
  internal :: "CoreAudioInternal option"

text \<open>The constructor; \<open>os id\<close> is what the HAL answers about device \<open>id\<close>. The
  \<open>jassert\<close> is a check of debug builds only.\<close>
definition CoreAudioIODevice_new ::
  "(AudioDeviceID \<Rightarrow> os_view) \<Rightarrow> string \<Rightarrow> AudioDeviceID \<Rightarrow> int \<Rightarrow> AudioDeviceID \<Rightarrow> int
     \<Rightarrow> fault + CoreAudioIODevice" where
  "CoreAudioIODevice_new os name inputDeviceId inputIndex0 outputDeviceId outputIndex0 =
     (let make = (\<lambda>err dev. \<lparr>deviceName = name, inputIndex = inputIndex0,
                    outputIndex = outputIndex0, isOpen' = False, isStarted = False,
                    lastError = err, internal = dev\<rparr>)
      in if outputDeviceId = 0 \<or> outputDeviceId = inputDeviceId then
           (case CoreAudioInternal_new (os inputDeviceId) inputDeviceId of
              Inl e \<Rightarrow> Inl e
            | Inr device \<Rightarrow>
                Inr (make (error (this device))
                       (if error (this device) \<noteq> [] then None else Some device)))
         else
           (case CoreAudioInternal_new (os outputDeviceId) outputDeviceId of
              Inl e \<Rightarrow> Inl e
            | Inr device \<Rightarrow>
                if error (this device) \<noteq> [] then Inr (make (error (this device)) None)
                else if inputDeviceId \<noteq> 0 then
                  (case CoreAudioInternal_new (os inputDeviceId) inputDeviceId of
                     Inl e \<Rightarrow> Inl e
                   | Inr secondDevice \<Rightarrow>
                       if error (this device) \<noteq> []
                       then Inr (make (error (this device)) (Some device))
                       else Inr (make (error (this device))
                              (Some (Internal (this device)
                                 (Some (Internal ((this secondDevice)\<lparr>isSlaveDevice := True\<rparr>)
                                    (inputDevice secondDevice)))))))
                else Inr (make (error (this device)) (Some device))))"

text \<open>The loop of \<open>getDefaultBufferSize\<close> over the array \<open>bufferSizes\<close>.\<close>
fun default_scan :: "int list \<Rightarrow> int" where
  "default_scan [] = 512"
| "default_scan (x # xs) = (if x \<ge> 512 then x else default_scan xs)"

definition getDefaultBufferSize :: "CoreAudioIODevice \<Rightarrow> fault + int" where
  "getDefaultBufferSize d =
     (case internal d of
        None \<Rightarrow> Inl NullPointer
      | Some dev \<Rightarrow> Inr (default_scan (bufferSizes (this dev))))"

definition getCurrentBufferSizeSamples :: "CoreAudioIODevice \<Rightarrow> int" where
  "getCurrentBufferSizeSamples d =
     (case internal d of None \<Rightarrow> 512 | Some dev \<Rightarrow> bufferSize (this dev))"

definition getCurrentSampleRate :: "CoreAudioIODevice \<Rightarrow> real" where
  "getCurrentSampleRate d =
     (case internal d of None \<Rightarrow> 0 | Some dev \<Rightarrow> sampleRate (this dev))"

text \<open>\<open>CoreAudioIODevice::start\<close> and \<open>CoreAudioIODevice::stop\<close>, with the calls they make
  to the client.\<close>
definition device_start ::
  "(AudioDeviceID \<Rightarrow> bool) \<Rightarrow> (AudioDeviceID \<Rightarrow> bool) \<Rightarrow> AudioIODeviceCallback option
     \<Rightarrow> CoreAudioIODevice \<Rightarrow> client_event list \<times> CoreAudioIODevice" where
  "device_start addIOProc deviceStart cb d =
     (case internal d of
        None \<Rightarrow> ([], d)
      | Some dev \<Rightarrow>
          if \<not> isStarted d then
            ((case cb of None \<Rightarrow> [] | Some client \<Rightarrow> [AboutToStart client]),
             d\<lparr>isStarted := True, internal := Some (snd (start addIOProc deviceStart cb dev))\<rparr>)
          else ([], d))"



subsection \<open>CoreAudioIODeviceType\<close>

record CoreAudioIODeviceType =
  inputDeviceNames :: "string list"
  outputDeviceNames :: "string list"
  inputIds :: "AudioDeviceID list"
  outputIds :: "AudioDeviceID list"
  hasScanned :: bool

text \<open>\<open>createDevice\<close>. The name \<open>index\<close> that its test reads is declared neither in the
  function nor in the class; it is a parameter here, \<open>index_value\<close>.\<close>
definition createDevice ::
  "int \<Rightarrow> (AudioDeviceID \<Rightarrow> os_view) \<Rightarrow> CoreAudioIODeviceType \<Rightarrow> string \<Rightarrow> string
     \<Rightarrow> fault + CoreAudioIODevice option" where
  "createDevice index_value os t outputDeviceName inputDeviceName =
     (let inIndex = indexOf (inputDeviceNames t) inputDeviceName;
          outIndex = indexOf (outputDeviceNames t) outputDeviceName;
          name = (if outputDeviceName = [] then inputDeviceName else outputDeviceName)
      in if index_value \<ge> 0 then
           (case CoreAudioIODevice_new os name (array_get (inputIds t) inIndex) inIndex
                   (array_get (outputIds t) outIndex) outIndex of
              Inl e \<Rightarrow> Inl e
            | Inr d \<Rightarrow> Inr (Some d))
         else Inr None)"

subsection \<open>The specification's wording and the devices used as examples\<close>

text \<open>"Smallest available size \<open>\<ge>\<close> 512, else 512", as the specification words
  \<open>getDefaultBufferSize\<close>.\<close>
definition smallest_at_least_512 :: "int list \<Rightarrow> int" where
  "smallest_at_least_512 xs =
     (case filter (\<lambda>x. x \<ge> 512) xs of [] \<Rightarrow> 512 | y # ys \<Rightarrow> Min (set (y # ys)))"

text \<open>An output device with two fixed buffer sizes, which the HAL lists larger first.\<close>
definition descending_sizes_view :: os_view where
  "descending_sizes_view =
     \<lparr>os_NominalSampleRate = Some 44100, os_BufferFrameSize = Some 512,
      os_BufferFrameSizeRange = Some [(1024, 1024), (512, 512)],
      os_AvailableNominalSampleRates = Some [(44100, 44100)],
      os_InputLatency = Some 0, os_OutputLatency = Some 0,
      os_InputStreamConfiguration = None, os_OutputStreamConfiguration = Some [2]\<rparr>"

definition sorted_sizes_core :: CoreAudioInternal where
  "sorted_sizes_core = Internal ((initial_core 7)\<lparr>bufferSizes := [256, 512, 1024]\<rparr>) None"

definition sorted_sizes_device :: CoreAudioIODevice where
  "sorted_sizes_device =
     \<lparr>deviceName = ''out'', inputIndex = - 1, outputIndex = 0, isOpen' = False,
      isStarted = False, lastError = [], internal = Some sorted_sizes_core\<rparr>"

text \<open>A device with the data sources 10 and 20, the second one selected.\<close>
definition two_sources :: "OSType \<Rightarrow> os_sources" where
  "two_sources beyond =
     \<lparr>src_DataSource = Some 20, src_DataSources = Some [10, 20], src_beyond = beyond\<rparr>"

text \<open>A registry whose scan found no device.\<close>
definition empty_registry :: CoreAudioIODeviceType where
  "empty_registry =
     \<lparr>inputDeviceNames = [], outputDeviceNames = [], inputIds = [], outputIds = [],
      hasScanned = True\<rparr>"

text \<open>The pointers of the views that \<open>setTempBufferSize\<close> hands out, input channels first.\<close>
definition views :: "core \<Rightarrow> int option list" where
  "views c = take (numInputChans c) (tempInputBuffers c) @ take (numOutputChans c) (tempOutputBuffers c)"

text \<open>An object with one active channel in each direction.\<close>
definition one_in_one_out :: core where
  "one_in_one_out = (initial_core 7)\<lparr>numInputChans := 1, numOutputChans := 1\<rparr>"

text \<open>Slot \<open>q\<close> of stream \<open>t\<close> exists and holds 0.\<close>
definition silent :: "sample list list \<Rightarrow> nat \<Rightarrow> nat \<Rightarrow> bool" where
  "silent outData t q = (t < length outData \<and> q < length (outData ! t) \<and> outData ! t ! q = 0)"

text \<open>Behind the last entry that \<open>fillInChannelInfo\<close> wrote, the routing array is zero.\<close>
definition routing_settled :: "core \<Rightarrow> bool" where
  "routing_settled c =
     list_all (\<lambda>info. dataStrideSamples info = 0)
       (drop (numOutputChannelInfos c) (outputChannelInfo c))"

text \<open>A duplex device: one stream of two interleaved channels in each direction, a fixed
  buffer of 4 frames, 44100 Hz. \<open>duplex_fresh\<close> is its object behind the constructor,
  \<open>duplex_core\<close> the object once \<open>reopen\<close> has activated all four channels.\<close>
definition duplex_view :: os_view where
  "duplex_view =
     \<lparr>os_NominalSampleRate = Some 44100, os_BufferFrameSize = Some 4,
      os_BufferFrameSizeRange = Some [(4, 4)],
      os_AvailableNominalSampleRates = Some [(44100, 44100)],
      os_InputLatency = Some 0, os_OutputLatency = Some 0,
      os_InputStreamConfiguration = Some [2], os_OutputStreamConfiguration = Some [2]\<rparr>"

definition duplex_fresh :: core where
  "duplex_fresh =
     \<lparr>deviceID = 7, started = False, audioBuffer = replicate 8 0, numInputChans = 0,
      numOutputChans = 0, callbacksAllowed = True, numInputChannelInfos = 0,
      numOutputChannelInfos = 0, inputLatency = 0, outputLatency = 0, callback = None,
      isSlaveDevice = False, error = [], activeInputChans = [], activeOutputChans = [],
      inChanNames = [''input 1'', ''input 2''], outChanNames = [''output 1'', ''output 2''],
      sampleRates = [44100], bufferSizes = [4], sampleRate = 44100, bufferSize = 4,
      inputChannelInfo = replicate 96 zeroInfo,
      outputChannelInfo = replicate 96 zeroInfo,
      tempInputBuffers = replicate 96 None,
      tempOutputBuffers = replicate 96 None,
      timerRunning = False\<rparr>"

definition channel_0 :: CallbackDetailsForChannel where
  "channel_0 = \<lparr>sourceChannelNum = 0, streamNum = 0, dataOffsetSamples = 0, dataStrideSamples = 2\<rparr>"

definition channel_1 :: CallbackDetailsForChannel where
  "channel_1 = \<lparr>sourceChannelNum = 1, streamNum = 0, dataOffsetSamples = 1, dataStrideSamples = 2\<rparr>"

definition duplex_core :: core where
  "duplex_core =
     \<lparr>deviceID = 7, started = False, audioBuffer = replicate 24 0, numInputChans = 2,
      numOutputChans = 2, callbacksAllowed = True, numInputChannelInfos = 2,
      numOutputChannelInfos = 2, inputLatency = 0, outputLatency = 0, callback = None,
      isSlaveDevice = False, error = [], activeInputChans = [True, True],
      activeOutputChans = [True, True],
      inChanNames = [''input 1'', ''input 2''], outChanNames = [''output 1'', ''output 2''],
      sampleRates = [44100], bufferSizes = [4], sampleRate = 44100, bufferSize = 4,
      inputChannelInfo = (replicate 96 zeroInfo)[0 := channel_0, 1 := channel_1],
      outputChannelInfo = (replicate 96 zeroInfo)[0 := channel_0, 1 := channel_1],
      tempInputBuffers = (replicate 96 None)[0 := Some 0, 1 := Some 4],
      tempOutputBuffers = (replicate 96 None)[0 := Some 8, 1 := Some 12],
      timerRunning = False\<rparr>"

text \<open>A client that writes silence.\<close>
definition silent_client :: client_io where
  "silent_client cb ins numIn numOut frames i k = 0"

text \<open>"Poll \<open>refreshFromOS()\<close> up to 30 times at 100 ms intervals, until observed rate and
  size match requested", as the specification words the loop of \<open>reopen\<close>.
  \<open>refreshed os k n c\<close> is the object \<open>c\<close> after \<open>n\<close> refreshes in a row, the first of
  which the HAL answers with \<open>os k\<close>, the next with \<open>os (k + 1)\<close>, and so on;
  \<open>observed os k c j\<close> is what poll \<open>j\<close> of a loop that starts with \<open>c\<close> sees (the first
  poll is poll 1): the sample rate and the buffer size behind \<open>j\<close> refreshes; and
  \<open>polled os k c n\<close> is the trace of \<open>n\<close> polls none of which ends the loop, each with the
  sleep of 100 ms behind it.\<close>
fun refreshed :: "(nat \<Rightarrow> os_view) \<Rightarrow> nat \<Rightarrow> nat \<Rightarrow> core \<Rightarrow> fault + core" where
  "refreshed os k 0 c = Inr c"
| "refreshed os k (Suc n) c =
     (case updateDetailsFromDevice (os k) c of
        Inl e \<Rightarrow> Inl e
      | Inr c' \<Rightarrow> refreshed os (Suc k) n c')"

definition observed :: "(nat \<Rightarrow> os_view) \<Rightarrow> nat \<Rightarrow> core \<Rightarrow> nat \<Rightarrow> os_event" where
  "observed os k c j =
     (case refreshed os k j c of
        Inl e \<Rightarrow> Sleep 0
      | Inr c' \<Rightarrow> Poll (sampleRate c') (bufferSize c'))"

definition polled :: "(nat \<Rightarrow> os_view) \<Rightarrow> nat \<Rightarrow> core \<Rightarrow> nat \<Rightarrow> os_event list" where
  "polled os k c n = concat (map (\<lambda>j. [observed os k c j, Sleep 100]) [1 ..< Suc n])"

text \<open>The number of polls in a trace.\<close>
fun polls :: "os_event list \<Rightarrow> nat" where
  "polls [] = 0"
| "polls (Poll r b # evs) = Suc (polls evs)"
| "polls (Sleep ms # evs) = polls evs"

text \<open>Polls only, any two of them one sleep of 100 ms apart.\<close>
fun spaced_100ms :: "os_event list \<Rightarrow> bool" where
  "spaced_100ms [] = True"
| "spaced_100ms [Poll r b] = True"
| "spaced_100ms (Poll r b # Sleep ms # evs) = (ms = 100 \<and> spaced_100ms evs)"
| "spaced_100ms evs = False"

text \<open>No poll of the trace saw the requested sample rate together with the requested
  buffer size.\<close>
definition never_matched :: "real \<Rightarrow> int \<Rightarrow> os_event list \<Rightarrow> bool" where
  "never_matched rate frames evs = list_all (\<lambda>ev. ev \<noteq> Poll rate frames) evs"

text \<open>The duplex device asked for 48000 Hz and 256 frames, which its HAL never grants: the
  trace of the 30 polls, and the object behind them.\<close>
definition stuck_trace :: "os_event list" where
  "stuck_trace = concat (replicate 30 [Poll 44100 4, Sleep 100])"

definition duplex_failed :: core where
  "duplex_failed = duplex_core\<lparr>error := ''Couldn't change sample rate/buffer size''\<rparr>"

text \<open>The duplex device running for client 5 inside its facade, and the HAL once the
  device has been switched to 48000 Hz behind the program's back; \<open>duplex_resampled\<close> is
  the object once the timer has fired.\<close>
definition resampled_view :: os_view where
  "resampled_view = duplex_view\<lparr>os_NominalSampleRate := Some 48000\<rparr>"

text \<open>The duplex device asked for 48000 Hz and 4 frames, where the HAL reports the old
  sample rate to the first 29 polls and the new one to poll 30: the trace of the 30 polls,
  and the object behind them.\<close>
definition late_hal :: "AudioDeviceID \<Rightarrow> nat \<Rightarrow> os_view" where
  "late_hal devID k = (if k < 29 then duplex_view else resampled_view)"

definition late_trace :: "os_event list" where
  "late_trace = concat (replicate 29 [Poll 44100 4, Sleep 100]) @ [Poll 48000 4]"

definition duplex_late :: core where
  "duplex_late = duplex_core\<lparr>sampleRate := 48000\<rparr>"




text \<open>What a refresh leaves alone.\<close>
definition same_binding :: "core \<Rightarrow> core \<Rightarrow> bool" where
  "same_binding c c' =
     (callback c' = callback c \<and> started c' = started c \<and> deviceID c' = deviceID c
      \<and> isSlaveDevice c' = isSlaveDevice c \<and> error c' = error c
      \<and> numInputChans c' = numInputChans c \<and> numOutputChans c' = numOutputChans c)"

text \<open>The duplex device reopened with the input mask 0b10: one active input channel,
  which is channel 1 of the device. \<open>sparse_running\<close> is the object once client 5 is
  started on it.\<close>
definition sparse_core :: core where
  "sparse_core =
     duplex_core\<lparr>audioBuffer := replicate 20 0, numInputChans := 1, numInputChannelInfos := 1,
       activeInputChans := [False, True],
       inputChannelInfo := (replicate 96 zeroInfo)[0 := channel_1],
       tempInputBuffers := (replicate 96 None)[0 := Some 0],
       tempOutputBuffers := (replicate 96 None)[0 := Some 4, 1 := Some 8]\<rparr>"

definition sparse_running :: CoreAudioInternal where
  "sparse_running = Internal (sparse_core\<lparr>started := True, callback := Some 5\<rparr>) None"

text \<open>One OS buffer of four frames of two interleaved channels.\<close>
definition ramp :: "sample list" where
  "ramp = [1, 2, 3, 4, 5, 6, 7, 8]"

text \<open>Two duplex devices combined: device 7 is the master, device 9 the slave.
  \<open>fresh_pair\<close> is the pair behind the constructor of the facade, \<open>duplex_pair\<close> the
  pair once reopened, \<open>running_pair\<close> the pair once client 5 is started on it.\<close>
definition duplex_slave :: core where
  "duplex_slave = duplex_core\<lparr>deviceID := 9, isSlaveDevice := True\<rparr>"

definition duplex_pair :: CoreAudioInternal where
  "duplex_pair = Internal duplex_core (Some (Internal duplex_slave None))"



definition fresh_pair :: CoreAudioInternal where
  "fresh_pair =
     Internal duplex_fresh
       (Some (Internal (duplex_fresh\<lparr>deviceID := 9, isSlaveDevice := True\<rparr>) None))"

text \<open>The HAL refuses every read: the device is gone.\<close>
definition refusing_view :: os_view where
  "refusing_view =
     \<lparr>os_NominalSampleRate = None, os_BufferFrameSize = None,
      os_BufferFrameSizeRange = None, os_AvailableNominalSampleRates = None,
      os_InputLatency = None, os_OutputLatency = None,
      os_InputStreamConfiguration = None, os_OutputStreamConfiguration = None\<rparr>"

text \<open>The object that the constructor builds for a device whose every read is refused.\<close>
definition refused_core :: "AudioDeviceID \<Rightarrow> core" where
  "refused_core devID = (initial_core devID)\<lparr>bufferSizes := [512]\<rparr>"

text \<open>The output device 7 combined with the input device 9, where the HAL refuses the
  input device (\<open>input_refused\<close>) or the output device (\<open>output_refused\<close>), and the
  facades that the constructor builds there.\<close>
definition input_refused :: "AudioDeviceID \<Rightarrow> os_view" where
  "input_refused devID = (if devID = 9 then refusing_view else duplex_view)"

definition output_refused :: "AudioDeviceID \<Rightarrow> os_view" where
  "output_refused devID = (if devID = 7 then refusing_view else duplex_view)"

definition input_refused_device :: CoreAudioIODevice where
  "input_refused_device =
     \<lparr>deviceName = ''out'', inputIndex = 0, outputIndex = 0, isOpen' = False,
      isStarted = False, lastError = [],
      internal = Some (Internal duplex_fresh
                   (Some (Internal ((refused_core 9)\<lparr>isSlaveDevice := True\<rparr>) None)))\<rparr>"

definition output_refused_device :: CoreAudioIODevice where
  "output_refused_device =
     \<lparr>deviceName = ''out'', inputIndex = 0, outputIndex = 0, isOpen' = False,
      isStarted = False, lastError = [],
      internal = Some (Internal (refused_core 7)
                   (Some (Internal (duplex_fresh\<lparr>deviceID := 9, isSlaveDevice := True\<rparr>) None)))\<rparr>"

section \<open>Properties\<close>

subsection \<open>Evaluating the model\<close>

lemma for_each_append:
  "for_each body (xs @ ys) s =
     (case for_each body xs s of Inl e \<Rightarrow> Inl e | Inr s' \<Rightarrow> for_each body ys s')"
  by (induction xs arbitrary: s) (auto split: sum.splits)

lemma upt_0_2: "[0 ..< 2] = [0, 1]"
  by (simp add: upt_conv_Cons)

lemma foldl_add_filter:
  "distinct xs \<Longrightarrow>
   foldl (\<lambda>acc i. if P i then addIfNotAlreadyThere i acc else acc) sizes xs =
   sizes @ filter (\<lambda>i. P i \<and> i \<notin> set sizes) xs"
proof (induction xs arbitrary: sizes)
  case Nil
  then show ?case by simp
next
  case (Cons x xs)
  show ?case
  proof (cases "P x \<and> x \<notin> set sizes")
    case True
    have "filter (\<lambda>i. P i \<and> i \<notin> set (sizes @ [x])) xs = filter (\<lambda>i. P i \<and> i \<notin> set sizes) xs"
      using Cons.prems by (intro filter_cong) auto
    then show ?thesis
      using True Cons.IH [of "sizes @ [x]"] Cons.prems by (simp add: addIfNotAlreadyThere_def)
  next
    case False
    then show ?thesis
      using Cons.IH [of sizes] Cons.prems by (auto simp: addIfNotAlreadyThere_def)
  qed
qed

text \<open>The sizes that the grid loop appends: the multiples of 32 inside a range that are
  not there yet, ascending.\<close>
lemma add_grid_filter:
  "add_grid ranges sizes =
   sizes @ filter (\<lambda>i. in_some_range ranges i \<and> i \<notin> set sizes) (map (\<lambda>k. 32 * int k) [1 ..< 256])"
proof -
  have "distinct (map (\<lambda>k. 32 * int k) [1 ..< 256])"
    by (simp add: distinct_map inj_on_def)
  then show ?thesis
    unfolding add_grid_def by (rule foldl_add_filter)
qed

lemma grid_split: "[1 ..< 256] = [1 ..< 16] @ 16 # [17 ..< 256]"
proof -
  have "[1 ..< 256] = [1 ..< 16] @ [16 ..< 256]"
    using upt_add_eq_append [of 1 16 240] by simp
  moreover have "[16 ..< 256] = 16 # [17 ..< 256]"
    by (simp add: upt_conv_Cons)
  ultimately show ?thesis by simp
qed

lemma add_grid_descending: "add_grid [(1024, 1024), (512, 512)] [1024] = [1024, 512]"
proof -
  have "filter (\<lambda>i. in_some_range [(1024, 1024), (512, 512)] i \<and> i \<notin> set [1024])
          (map (\<lambda>k. 32 * int k) [1 ..< 256]) = [512]"
    unfolding grid_split
    by (auto simp: in_some_range_def filter_empty_conv)
  then show ?thesis by (simp add: add_grid_filter)
qed

lemma add_grid_fixed_4: "add_grid [(4, 4)] [4] = [4]"
  by (simp add: add_grid_filter in_some_range_def filter_empty_conv)

lemmas refresh_defs =
  CoreAudioInternal_new_def updateDetailsFromDevice_def read_rate_and_size_def read_lists_def
  initial_core_def readBufferSizes_def
  trunc_int_def readSampleRates_def possibleRates_def fillInChannelInfo_def fill_stream_def
  fill_channel_def bit_at_def setTempBufferSize_def assign_view_def tempBufferBytes_def
  maxNumChans_def addIfNotAlreadyThere_def Let_def upt_0_2 string_of_nat.simps

subsection \<open>getDefaultBufferSize\<close>

lemma default_scan_find:
  "default_scan xs = (case find (\<lambda>x. x \<ge> 512) xs of None \<Rightarrow> 512 | Some x \<Rightarrow> x)"
  by (induction xs) simp_all

lemma default_scan_sorted:
  "sorted xs \<Longrightarrow> default_scan xs = smallest_at_least_512 xs"
proof (induction xs)
  case Nil
  then show ?case by (simp add: smallest_at_least_512_def)
next
  case (Cons x xs)
  show ?case
  proof (cases "x \<ge> 512")
    case True
    have "Min (set (x # filter (\<lambda>y. y \<ge> 512) xs)) = x"
      using Cons.prems by (intro Min_eqI) auto
    then show ?thesis using True by (simp add: smallest_at_least_512_def)
  next
    case False
    then show ?thesis using Cons by (simp add: smallest_at_least_512_def)
  qed
qed

text \<open>
  Claim C10, as the code has it: \<open>getDefaultBufferSize\<close> answers the first element of
  \<open>bufferSizes\<close>, in the order of the array, that is at least 512, and 512 when there is
  none. Where the array is sorted ascending, that element is the smallest one that is at
  least 512.
\<close>
theorem getDefaultBufferSize_first_match:
  "internal d = Some dev \<Longrightarrow>
     getDefaultBufferSize d =
       Inr (case find (\<lambda>x. x \<ge> 512) (bufferSizes (this dev)) of None \<Rightarrow> 512 | Some x \<Rightarrow> x)
     \<and> (sorted (bufferSizes (this dev)) \<longrightarrow>
          getDefaultBufferSize d = Inr (smallest_at_least_512 (bufferSizes (this dev))))"
proof -
  assume i: "internal d = Some dev"
  let ?sizes = "bufferSizes (this dev)"
  have r: "getDefaultBufferSize d = Inr (default_scan ?sizes)"
    using i by (simp add: getDefaultBufferSize_def)
  have f: "default_scan ?sizes = (case find (\<lambda>x. x \<ge> 512) ?sizes of None \<Rightarrow> 512 | Some x \<Rightarrow> x)"
    by (rule default_scan_find)
  have s: "sorted ?sizes \<longrightarrow> default_scan ?sizes = smallest_at_least_512 ?sizes"
    using default_scan_sorted by blast
  from r f s show ?thesis by simp
qed

theorem getDefaultBufferSize_first_match_witness:
  "internal sorted_sizes_device = Some sorted_sizes_core
   \<and> sorted (bufferSizes (this sorted_sizes_core))
   \<and> getDefaultBufferSize sorted_sizes_device = Inr 512"
  using getDefaultBufferSize_first_match [of sorted_sizes_device sorted_sizes_core]
  by (simp add: sorted_sizes_device_def sorted_sizes_core_def initial_core_def
      smallest_at_least_512_def)

text \<open>
  Claim C10 as it is worded fails: built from a HAL that lists the range of 1024 frames
  before the range of 512 frames, \<open>bufferSizes\<close> is 1024, 512; the code answers 1024, the
  smallest size that is at least 512 is 512.
\<close>
theorem getDefaultBufferSize_counterexample:
  "(case CoreAudioIODevice_new (\<lambda>devID. descending_sizes_view) ''out'' 0 (- 1) 7 0 of
      Inl e \<Rightarrow> False
    | Inr d \<Rightarrow>
        (case internal d of
           None \<Rightarrow> False
         | Some dev \<Rightarrow>
             bufferSizes (this dev) = [1024, 512]
             \<and> getDefaultBufferSize d = Inr 1024
             \<and> smallest_at_least_512 (bufferSizes (this dev)) = 512))"
  by (simp add: CoreAudioIODevice_new_def descending_sizes_view_def refresh_defs
      add_grid_descending getDefaultBufferSize_def smallest_at_least_512_def)

subsection \<open>getCurrentSourceIndex\<close>

lemma source_scan_value:
  "source_scan os types cur idxs =
     (if idxs \<noteq> [] \<and> types_at os types (length types) = cur then int (hd idxs) else - 1)"
  by (induction idxs) auto

text \<open>The result is 0 or -1: the loop compares the word behind the list, whatever the index.\<close>
lemma getCurrentSourceIndex_le_0: "getCurrentSourceIndex os c \<le> 0"
  by (auto simp: getCurrentSourceIndex_def source_scan_value upt_conv_Cons
      split: option.splits)

text \<open>
  Claim C7 at a device whose current data source is the second of two: the claim says 1;
  the code answers 0 when the word behind the list happens to equal the current source
  and -1 otherwise.
\<close>
theorem getCurrentSourceIndex_second_source:
  "getCurrentSourceIndex (two_sources beyond) (initial_core 7) = (if beyond = 20 then 0 else - 1)"
  by (simp add: getCurrentSourceIndex_def getAllDataSourcesForDevice_def two_sources_def
      initial_core_def source_scan_value types_at_def)

subsection \<open>createDevice\<close>

text \<open>Whether the result is null depends on \<open>index\<close> alone, whatever the names and the
  tables.\<close>
lemma createDevice_null_iff:
  "(createDevice index_value os t outputDeviceName inputDeviceName = Inr None) = (index_value < 0)"
  by (auto simp: createDevice_def Let_def split: sum.splits)

text \<open>
  Claim C6 where neither name is in the tables: the claim says null; the code answers null
  only if \<open>index\<close> is negative, and otherwise a device built from the ids 0 and 0 and the
  indices -1 and -1, which holds no \<open>CoreAudioInternal\<close>.
\<close>
theorem createDevice_unknown_names:
  "createDevice index_value os empty_registry ''speaker'' ''microphone'' =
     (if index_value \<ge> 0
      then Inr (Some \<lparr>deviceName = ''speaker'', inputIndex = - 1, outputIndex = - 1,
                       isOpen' = False, isStarted = False,
                       lastError = ''can't open device'', internal = None\<rparr>)
      else Inr None)"
  by (simp add: createDevice_def empty_registry_def indexOf_def array_get_def
      CoreAudioIODevice_new_def CoreAudioInternal_new_def Let_def)

subsection \<open>setTempBufferSize\<close>

lemma sint_of_nat_small: "m < 2 ^ 31 \<Longrightarrow> sint (word_of_nat m :: c_int) = int m"
proof -
  assume m: "m < 2 ^ 31"
  have "sint (word_of_int (int m) :: c_int) = (int m + 2 ^ 31) mod 2 ^ 32 - 2 ^ 31"
    using int_word_sint [of "int m", where 'a = 32] by simp
  moreover have "(int m + 2 ^ 31) mod 2 ^ 32 = int m + 2 ^ 31"
    using m by simp
  ultimately show ?thesis by simp
qed

lemma scast_of_nat_small:
  "m < 2 ^ 31 \<Longrightarrow> (scast (word_of_nat m :: c_int) :: size_t) = word_of_nat m"
proof -
  assume m: "m < 2 ^ 31"
  have "(scast (word_of_nat m :: c_int) :: size_t) = word_of_int (sint (word_of_nat m :: c_int))"
    by simp
  then show ?thesis using sint_of_nat_small [OF m] by simp
qed

text \<open>As long as the product of the two \<open>int\<close> does not overflow, \<open>juce_calloc\<close> is asked
  for 32 bytes and 4 for each sample.\<close>
lemma tempBufferBytes_small:
  assumes "m * n < 2 ^ 31"
  shows "unat (tempBufferBytes (word_of_nat m) (word_of_nat n)) = 32 + m * n * 4"
proof -
  have p: "word_of_nat m * word_of_nat n = (word_of_nat (m * n) :: c_int)"
    by simp
  have "tempBufferBytes (word_of_nat m) (word_of_nat n)
          = 32 + scast (word_of_nat (m * n) :: c_int) * 4"
    by (simp only: tempBufferBytes_def p)
  also have "\<dots> = word_of_nat (32 + m * n * 4)"
    by (simp only: scast_of_nat_small [OF assms]) simp
  finally have e: "tempBufferBytes (word_of_nat m) (word_of_nat n) = word_of_nat (32 + m * n * 4)" .
  have u: "unat (word_of_nat k :: size_t) = k" if "k < 2 ^ 64" for k
    using that by (simp add: unat_of_nat)
  have "32 + m * n * 4 < (2::nat) ^ 64" using assms by simp
  from u [OF this] show ?thesis by (simp only: e)
qed

lemma assign_view_in_range:
  "i < length ptrs \<Longrightarrow>
   assign_view n i (count, ptrs) = Inr (count + 1, ptrs[i := Some (sint (count * n))])"
  by (simp add: assign_view_def)

lemma assign_views:
  "k \<le> length ptrs \<Longrightarrow>
   for_each (assign_view n) [0 ..< k] (count, ptrs) =
     Inr (count + word_of_nat k,
          map (\<lambda>i. Some (sint ((count + word_of_nat i) * n))) [0 ..< k] @ drop k ptrs)"
proof (induction k)
  case 0
  then show ?case by simp
next
  case (Suc k)
  let ?xs = "map (\<lambda>i. Some (sint ((count + word_of_nat i) * n))) [0 ..< k]"
  have k: "k < length ptrs" using Suc.prems by simp
  have upd: "(?xs @ drop k ptrs)[k := v] = ?xs @ v # drop (Suc k) ptrs" for v
  proof -
    have "drop k ptrs = ptrs ! k # drop (Suc k) ptrs"
      using k by (simp add: Cons_nth_drop_Suc)
    then show ?thesis by (simp add: list_update_append)
  qed
  have "for_each (assign_view n) [0 ..< k] (count, ptrs)
          = Inr (count + word_of_nat k, ?xs @ drop k ptrs)"
    using Suc.IH k by simp
  then show ?case
    using k by (simp add: for_each_append assign_view_in_range upd add.assoc add.commute)
qed

text \<open>The offsets of the views, as long as no product of two \<open>int\<close> overflows.\<close>
lemma view_offsets:
  assumes "(a + k) * n < 2 ^ 31"
  shows "map (\<lambda>i. Some (sint ((word_of_nat a + word_of_nat i) * (word_of_nat n :: c_int)))) [0 ..< k]
           = map (\<lambda>i. Some (int ((a + i) * n))) [0 ..< k]"
proof (rule map_cong [OF refl])
  fix i assume "i \<in> set [0 ..< k]"
  then have "(a + i) * n \<le> (a + k) * n" by (intro mult_le_mono1) simp
  then have "(a + i) * n < 2 ^ 31" using assms by (rule le_less_trans)
  from sint_of_nat_small [OF this]
  show "Some (sint ((word_of_nat a + word_of_nat i) * (word_of_nat n :: c_int)))
          = Some (int ((a + i) * n))"
    by simp
qed

lemma setTempBufferSize_eq:
  assumes "numInputChans c \<le> maxNumChans" and "numOutputChans c \<le> maxNumChans"
    and "(numInputChans c + numOutputChans c) * n < 2 ^ 31"
  shows "setTempBufferSize (word_of_nat (numInputChans c + numOutputChans c)) (word_of_nat n) c =
           Inr (c\<lparr>audioBuffer := replicate (8 + (numInputChans c + numOutputChans c) * n) 0,
                   tempInputBuffers := map (\<lambda>i. Some (int (i * n))) [0 ..< numInputChans c]
                      @ replicate (maxNumChans - numInputChans c) None,
                   tempOutputBuffers := map (\<lambda>j. Some (int ((numInputChans c + j) * n))) [0 ..< numOutputChans c]
                      @ replicate (maxNumChans - numOutputChans c) None\<rparr>)"
proof -
  let ?I = "numInputChans c" and ?O = "numOutputChans c"
  have "(0 + ?I) * n \<le> (?I + ?O) * n" by (intro mult_le_mono1) simp
  then have bi: "(0 + ?I) * n < 2 ^ 31" using assms(3) by (rule le_less_trans)
  have i: "for_each (assign_view (word_of_nat n)) [0 ..< ?I] (0, replicate maxNumChans None)
        = Inr (word_of_nat ?I, map (\<lambda>i. Some (int (i * n))) [0 ..< ?I]
                      @ replicate (maxNumChans - ?I) None)"
    using assign_views [of ?I "replicate maxNumChans None" "word_of_nat n" 0] assms(1)
      view_offsets [OF bi]
    by simp
  have o: "for_each (assign_view (word_of_nat n)) [0 ..< ?O] (word_of_nat ?I, replicate maxNumChans None)
        = Inr (word_of_nat ?I + word_of_nat ?O,
               map (\<lambda>j. Some (int ((?I + j) * n))) [0 ..< ?O]
                      @ replicate (maxNumChans - ?O) None)"
    using assign_views [of ?O "replicate maxNumChans None" "word_of_nat n" "word_of_nat ?I"] assms(2)
      view_offsets [OF assms(3)]
    by simp
  have b: "unat (tempBufferBytes (word_of_nat (?I + ?O)) (word_of_nat n)) div 4 = 8 + (?I + ?O) * n"
    by (simp only: tempBufferBytes_small [OF assms(3)])
  show ?thesis
    by (simp add: setTempBufferSize_def Let_def i o b del: of_nat_add)
qed

lemma upt_two_parts: "[0 ..< a + b] = [0 ..< a] @ map (\<lambda>j. a + j) [0 ..< b]"
  by (induction b) simp_all

lemma views_apart: "k < k' \<Longrightarrow> k * n + n \<le> k' * (n :: nat)"
proof -
  assume "k < k'"
  then have "Suc k * n \<le> k' * n" by (intro mult_le_mono1) simp
  then show ?thesis by simp
qed

text \<open>
  Claim C9, as the code has it. Let the object have at most \<open>maxNumChans\<close> channels in
  each direction, and let the product of the number of channels and \<open>numSamples\<close> fit
  into an \<open>int\<close>. Then \<open>setTempBufferSize\<close> allocates one zeroed block of
  \<open>32 + (numInputChans + numOutputChans) * numSamples * 4\<close> bytes, which is 8 float
  slots more than the views need. View \<open>k\<close> (input channels first) starts at slot
  \<open>k * numSamples\<close>: the first one at slot 0, any two of them \<open>numSamples\<close> slots apart
  or more, and the spare 8 slots behind the last one.
\<close>
theorem setTempBufferSize_layout:
  "numInputChans c \<le> maxNumChans \<Longrightarrow> numOutputChans c \<le> maxNumChans \<Longrightarrow>
   (numInputChans c + numOutputChans c) * n < 2 ^ 31 \<Longrightarrow>
   \<exists>c'. setTempBufferSize (word_of_nat (numInputChans c + numOutputChans c)) (word_of_nat n) c = Inr c'
     \<and> audioBuffer c' = replicate (8 + (numInputChans c + numOutputChans c) * n) 0
     \<and> 4 * length (audioBuffer c') = 32 + (numInputChans c + numOutputChans c) * n * 4
     \<and> views c' = map (\<lambda>k. Some (int (k * n))) [0 ..< numInputChans c + numOutputChans c]
     \<and> (\<forall>k < numInputChans c + numOutputChans c. \<forall>k' < numInputChans c + numOutputChans c.
          k < k' \<longrightarrow> k * n + n \<le> k' * n)
     \<and> (\<forall>k < numInputChans c + numOutputChans c. k * n + n + 8 \<le> length (audioBuffer c'))"
proof -
  assume a: "numInputChans c \<le> maxNumChans" "numOutputChans c \<le> maxNumChans"
    "(numInputChans c + numOutputChans c) * n < 2 ^ 31"
  let ?N = "numInputChans c + numOutputChans c"
  let ?c' = "c\<lparr>audioBuffer := replicate (8 + ?N * n) 0,
                   tempInputBuffers := map (\<lambda>i. Some (int (i * n))) [0 ..< numInputChans c]
                      @ replicate (maxNumChans - numInputChans c) None,
                   tempOutputBuffers := map (\<lambda>j. Some (int ((numInputChans c + j) * n))) [0 ..< numOutputChans c]
                      @ replicate (maxNumChans - numOutputChans c) None\<rparr>"
  have r: "setTempBufferSize (word_of_nat ?N) (word_of_nat n) c = Inr ?c'"
    by (rule setTempBufferSize_eq [OF a])
  have z: "audioBuffer ?c' = replicate (8 + ?N * n) 0"
    by simp
  have len: "4 * length (audioBuffer ?c') = 32 + ?N * n * 4"
    by simp
  have v: "views ?c' = map (\<lambda>k. Some (int (k * n))) [0 ..< ?N]"
    by (simp add: views_def upt_two_parts o_def)
  have d: "\<forall>k < ?N. \<forall>k' < ?N. k < k' \<longrightarrow> k * n + n \<le> k' * n"
    using views_apart by blast
  have w: "\<forall>k < ?N. k * n + n + 8 \<le> length (audioBuffer ?c')"
  proof (intro allI impI)
    fix k assume "k < ?N"
    from views_apart [OF this, of n] show "k * n + n + 8 \<le> length (audioBuffer ?c')" by simp
  qed
  from r z len v d w show ?thesis by blast
qed

theorem setTempBufferSize_layout_witness:
  "numInputChans one_in_one_out \<le> maxNumChans \<and> numOutputChans one_in_one_out \<le> maxNumChans
   \<and> (numInputChans one_in_one_out + numOutputChans one_in_one_out) * 4 < (2 :: nat) ^ 31
   \<and> (\<exists>c'. setTempBufferSize 2 4 one_in_one_out = Inr c'
        \<and> audioBuffer c' = replicate 16 0 \<and> views c' = [Some 0, Some 4])"
proof -
  have h: "numInputChans one_in_one_out \<le> maxNumChans" "numOutputChans one_in_one_out \<le> maxNumChans"
    "(numInputChans one_in_one_out + numOutputChans one_in_one_out) * 4 < (2 :: nat) ^ 31"
    by (simp_all add: one_in_one_out_def maxNumChans_def)
  have n: "numInputChans one_in_one_out + numOutputChans one_in_one_out = 2"
    by (simp add: one_in_one_out_def)
  from setTempBufferSize_layout [OF h]
  obtain c' where "setTempBufferSize (word_of_nat 2) (word_of_nat 4) one_in_one_out = Inr c'"
    and "audioBuffer c' = replicate (8 + 2 * 4) 0"
    and "views c' = map (\<lambda>k. Some (int (k * 4))) [0 ..< 2]"
    unfolding n by blast
  then have "setTempBufferSize 2 4 one_in_one_out = Inr c'
        \<and> audioBuffer c' = replicate 16 0 \<and> views c' = [Some 0, Some 4]"
    by (simp add: upt_0_2)
  then show ?thesis using h by blast
qed

text \<open>
  Claim C9 as it is worded fails: with one channel in each direction and 4 samples the
  block has 16 float slots, not \<open>32 + 2 * 4\<close>, and the first view starts at slot 0, not
  behind a head of 32 slots.
\<close>
theorem setTempBufferSize_counterexample:
  "(case setTempBufferSize 2 4 one_in_one_out of
      Inl e \<Rightarrow> False
    | Inr c' \<Rightarrow> length (audioBuffer c') = 16
        \<and> length (audioBuffer c') \<noteq> 32 + (1 + 1) * 4
        \<and> tempInputBuffers c' ! 0 = Some 0)"
  by (simp add: one_in_one_out_def refresh_defs)

text \<open>Beyond the bound the arithmetic wraps. With one channel in each direction and
  \<open>INT_MAX\<close> samples the product of the two \<open>int\<close> is -2, \<open>juce_calloc\<close> is asked for 24
  bytes, and the view of the output channel starts \<open>INT_MAX\<close> slots behind the start of
  a block of 6 slots.\<close>
lemma setTempBufferSize_wraps:
  "(case setTempBufferSize 2 2147483647 one_in_one_out of
      Inl e \<Rightarrow> False
    | Inr c' \<Rightarrow> length (audioBuffer c') = 6
        \<and> tempInputBuffers c' ! 0 = Some 0 \<and> tempOutputBuffers c' ! 0 = Some 2147483647)"
  by (simp add: one_in_one_out_def refresh_defs)

subsection \<open>audioCallback with no client bound\<close>

lemma list_all_drop_nth:
  "list_all P (drop k xs) = (\<forall>i < length xs. k \<le> i \<longrightarrow> P (xs ! i))"
proof -
  have "list_all P (drop k xs) = (\<forall>n < length xs - k. P (xs ! (k + n)))"
    by (simp add: list_all_length)
  also have "\<dots> = (\<forall>i < length xs. k \<le> i \<longrightarrow> P (xs ! i))"
  proof (intro iffI allI impI)
    fix i
    assume a: "\<forall>n < length xs - k. P (xs ! (k + n))" and i: "i < length xs" "k \<le> i"
    then have "i - k < length xs - k" by arith
    with a have "P (xs ! (k + (i - k)))" by blast
    then show "P (xs ! i)" using i(2) by simp
  next
    fix n
    assume a: "\<forall>i < length xs. k \<le> i \<longrightarrow> P (xs ! i)" and "n < length xs - k"
    then have "k + n < length xs" by arith
    with a show "P (xs ! (k + n))" by simp
  qed
  finally show ?thesis .
qed

lemma routing_settled_iff:
  "routing_settled c =
     (\<forall>i < length (outputChannelInfo c).
        numOutputChannelInfos c \<le> i \<longrightarrow> dataStrideSamples (outputChannelInfo c ! i) = 0)"
  by (simp add: routing_settled_def list_all_drop_nth)

lemma for_down_preserves:
  assumes "for_down n body s = Inr s'" and "Q s"
    and "\<And>j s1 s2. body j s1 = Inr s2 \<Longrightarrow> Q s1 \<Longrightarrow> Q s2"
  shows "Q s'"
  using assms(1,2)
proof (induction n arbitrary: s)
  case 0
  then show ?case by simp
next
  case (Suc n)
  then obtain s1 where s1: "body n s = Inr s1" "for_down n body s1 = Inr s'"
    by (auto split: sum.splits)
  have "Q s1" using assms(3) [OF s1(1) Suc.prems(2)] .
  then show ?case using Suc.IH s1(2) by blast
qed

lemma for_down_establishes:
  assumes "for_down n body s = Inr s'" and "i < n"
    and "\<And>s1 s2. body i s1 = Inr s2 \<Longrightarrow> Q s2"
    and "\<And>j s1 s2. body j s1 = Inr s2 \<Longrightarrow> Q s1 \<Longrightarrow> Q s2"
  shows "Q s'"
  using assms(1,2)
proof (induction n arbitrary: s)
  case 0
  then show ?case by simp
next
  case (Suc n)
  then obtain s1 where s1: "body n s = Inr s1" "for_down n body s1 = Inr s'"
    by (auto split: sum.splits)
  show ?case
  proof (cases "i = n")
    case True
    then have "Q s1" using assms(3) s1(1) by blast
    then show ?thesis using for_down_preserves [where Q = Q, OF s1(2)] assms(4) by blast
  next
    case False
    then have "i < n" using Suc.prems(2) by simp
    then show ?thesis using Suc.IH [OF s1(2)] by blast
  qed
qed

lemma zero_out_length: "zero_out dst p st n = Inr dst' \<Longrightarrow> length dst' = length dst"
  by (induction n arbitrary: dst p) (auto split: if_splits)

lemma zero_out_keeps_zero:
  "zero_out dst p st n = Inr dst' \<Longrightarrow> q < length dst \<Longrightarrow> dst ! q = 0 \<Longrightarrow> dst' ! q = 0"
proof (induction n arbitrary: dst p)
  case 0
  then show ?case by simp
next
  case (Suc n)
  from Suc.prems(1) have p: "p < length dst" and r: "zero_out (dst[p := 0]) (p + st) st n = Inr dst'"
    by (auto split: if_splits)
  have "(dst[p := 0]) ! q = 0"
    using Suc.prems(2,3) p by (simp add: nth_list_update)
  then show ?case using Suc.IH [OF r] Suc.prems(2) by simp
qed

lemma zero_out_zeroes:
  "zero_out dst p st n = Inr dst' \<Longrightarrow> k < n \<Longrightarrow>
     p + k * st < length dst' \<and> dst' ! (p + k * st) = 0"
proof (induction n arbitrary: dst p k)
  case 0
  then show ?case by simp
next
  case (Suc n)
  from Suc.prems(1) have p: "p < length dst" and r: "zero_out (dst[p := 0]) (p + st) st n = Inr dst'"
    by (auto split: if_splits)
  show ?case
  proof (cases k)
    case 0
    have "dst' ! p = 0"
      using zero_out_keeps_zero [OF r, of p] p by simp
    moreover have "length dst' = length dst"
      using zero_out_length [OF r] by simp
    ultimately show ?thesis using 0 p by simp
  next
    case (Suc k')
    then have "k' < n" using Suc.prems(2) by simp
    from Suc.IH [OF r this] show ?thesis using Suc by (simp add: add.assoc add.commute)
  qed
qed

lemma zero_output_channel_keeps:
  assumes "zero_output_channel c j out1 = Inr out2" and "silent out1 t q"
  shows "silent out2 t q"
proof (cases "dataStrideSamples (outputChannelInfo c ! j) = 0")
  case True
  then show ?thesis using assms by (auto simp: zero_output_channel_def Let_def split: if_splits)
next
  case False
  let ?info = "outputChannelInfo c ! j"
  from assms(1) False obtain b where s: "streamNum ?info < length out1"
    and z: "zero_out (out1 ! streamNum ?info) (dataOffsetSamples ?info) (dataStrideSamples ?info)
              (nat (bufferSize c)) = Inr b"
    and o: "out2 = out1[streamNum ?info := b]"
    by (auto simp: zero_output_channel_def Let_def split: if_splits sum.splits)
  show ?thesis
  proof (cases "t = streamNum ?info")
    case True
    then show ?thesis
      using assms(2) zero_out_length [OF z] zero_out_keeps_zero [OF z, of q] o s
      by (simp add: silent_def)
  next
    case False
    then show ?thesis using assms(2) o by (simp add: silent_def)
  qed
qed

lemma zero_output_channel_zeroes:
  assumes "zero_output_channel c i out1 = Inr out2"
    and "dataStrideSamples (outputChannelInfo c ! i) \<noteq> 0" and "k < nat (bufferSize c)"
  shows "silent out2 (streamNum (outputChannelInfo c ! i))
           (dataOffsetSamples (outputChannelInfo c ! i) + k * dataStrideSamples (outputChannelInfo c ! i))"
proof -
  let ?info = "outputChannelInfo c ! i"
  from assms(1,2) obtain b where s: "streamNum ?info < length out1"
    and z: "zero_out (out1 ! streamNum ?info) (dataOffsetSamples ?info) (dataStrideSamples ?info)
              (nat (bufferSize c)) = Inr b"
    and o: "out2 = out1[streamNum ?info := b]"
    by (auto simp: zero_output_channel_def Let_def split: if_splits sum.splits)
  show ?thesis
    using zero_out_zeroes [OF z assms(3)] o s by (simp add: silent_def)
qed

text \<open>
  Claim C3. When \<open>audioCallback\<close> runs with no client bound and returns, no call has
  reached a client, the object is unchanged, and for every active output channel \<open>i\<close>
  whose routing entry has a stride other than 0 and every frame \<open>k\<close> below
  \<open>bufferSize\<close>, the slot \<open>dataOffsetSamples + k * stride\<close> of stream \<open>streamNum\<close> holds
  0. (The routing array is as every refresh leaves it, see
  \<open>updateDetailsFromDevice_settles\<close> below.)
\<close>
theorem audioCallback_without_client:
  assumes "callback (this dev) = None"
    and "routing_settled (this dev)"
    and "audioCallback client dev inData outData = Inr (events, dev', outData')"
    and "i < numOutputChans (this dev)" and "i < length (outputChannelInfo (this dev))"
    and "dataStrideSamples (outputChannelInfo (this dev) ! i) \<noteq> 0"
    and "k < nat (bufferSize (this dev))"
  shows "events = [] \<and> dev' = dev \<and>
         silent outData' (streamNum (outputChannelInfo (this dev) ! i))
           (dataOffsetSamples (outputChannelInfo (this dev) ! i)
              + k * dataStrideSamples (outputChannelInfo (this dev) ! i))"
proof -
  obtain c inp where dev: "dev = Internal c inp" by (cases dev)
  have loop: "for_down (min (numOutputChans c) (numOutputChannelInfos c))
                (zero_output_channel c) outData = Inr outData'" and ev: "events = []" "dev' = dev"
    using assms(1,3) by (auto simp: audioCallback_def dev split: sum.splits)
  have "\<not> numOutputChannelInfos c \<le> i"
    using assms(2,5,6) by (auto simp: routing_settled_iff dev)
  then have i: "i < min (numOutputChans c) (numOutputChannelInfos c)"
    using assms(4) by (simp add: dev)
  have "silent outData' (streamNum (outputChannelInfo c ! i))
           (dataOffsetSamples (outputChannelInfo c ! i) + k * dataStrideSamples (outputChannelInfo c ! i))"
  proof (rule for_down_establishes [OF loop i])
    fix s1 s2 assume "zero_output_channel c i s1 = Inr s2"
    then show "silent s2 (streamNum (outputChannelInfo c ! i))
           (dataOffsetSamples (outputChannelInfo c ! i) + k * dataStrideSamples (outputChannelInfo c ! i))"
      using zero_output_channel_zeroes assms(6,7) by (simp add: dev)
  next
    fix j s1 s2
    assume "zero_output_channel c j s1 = Inr s2"
      and "silent s1 (streamNum (outputChannelInfo c ! i))
           (dataOffsetSamples (outputChannelInfo c ! i) + k * dataStrideSamples (outputChannelInfo c ! i))"
    then show "silent s2 (streamNum (outputChannelInfo c ! i))
           (dataOffsetSamples (outputChannelInfo c ! i) + k * dataStrideSamples (outputChannelInfo c ! i))"
      by (rule zero_output_channel_keeps)
  qed
  then show ?thesis using ev by (simp add: dev)
qed

subsection \<open>The routing array behind a refresh\<close>

lemma for_each_preserves:
  assumes "for_each body xs s = Inr s'" and "P s"
    and "\<And>x s1 s2. body x s1 = Inr s2 \<Longrightarrow> P s1 \<Longrightarrow> P s2"
  shows "P s'"
  using assms(1,2)
proof (induction xs arbitrary: s)
  case Nil
  then show ?case by simp
next
  case (Cons x xs)
  then obtain s1 where s1: "body x s = Inr s1" "for_each body xs s1 = Inr s'"
    by (auto split: sum.splits)
  have "P s1" using assms(3) [OF s1(1) Cons.prems(2)] .
  then show ?case using Cons.IH s1(2) by blast
qed

lemma fill_channel_input_keeps:
  "fill_channel True i n j (cn, a, c) = Inr (cn', a', c') \<Longrightarrow>
     outputChannelInfo c' = outputChannelInfo c \<and> numOutputChannelInfos c' = numOutputChannelInfos c"
  by (auto simp: fill_channel_def Let_def split: if_splits)

lemma fillInChannelInfo_input_keeps:
  assumes "fillInChannelInfo True v c = Inr c'"
  shows "outputChannelInfo c' = outputChannelInfo c \<and> numOutputChannelInfos c' = numOutputChannelInfos c"
proof (cases "os_InputStreamConfiguration v")
  case None
  then show ?thesis using assms by (simp add: fillInChannelInfo_def)
next
  case (Some bufList)
  let ?P = "\<lambda>st. outputChannelInfo (snd (snd st)) = outputChannelInfo c
              \<and> numOutputChannelInfos (snd (snd st)) = numOutputChannelInfos c"
  from assms Some obtain cn a where
    l: "for_each (fill_stream True) (zip [0 ..< length bufList] bufList) (0, 0, c) = Inr (cn, a, c')"
    by (auto simp: fillInChannelInfo_def split: sum.splits)
  have inner: "?P s2" if "fill_channel True i n j s1 = Inr s2" "?P s1" for i n j s1 s2
    using that fill_channel_input_keeps [of i n j "fst s1" "fst (snd s1)" "snd (snd s1)"
        "fst s2" "fst (snd s2)" "snd (snd s2)"]
    by simp
  have outer: "?P s2" if "fill_stream True b s1 = Inr s2" "?P s1" for b s1 s2
  proof -
    obtain i n where b: "b = (i, n)" by (cases b)
    from that(1) have "for_each (fill_channel True i n) [0 ..< n] s1 = Inr s2"
      by (simp add: fill_stream_def b)
    from for_each_preserves [where P = ?P, OF this that(2)] inner show ?thesis by blast
  qed
  have "?P (cn, a, c')"
    using for_each_preserves [where P = ?P, OF l] outer by simp
  then show ?thesis by simp
qed

text \<open>The loop invariant of \<open>fillInChannelInfo (false)\<close>: behind \<open>activeChans\<close> the array
  is zero, and \<open>numOutputChannelInfos\<close> is not below \<open>activeChans\<close>.\<close>
lemma fill_channel_output_settles:
  assumes "fill_channel False i n j (cn, a, c) = Inr (cn', a', c')"
    and "\<forall>m < length (outputChannelInfo c). a \<le> m \<longrightarrow> dataStrideSamples (outputChannelInfo c ! m) = 0"
    and "a \<le> numOutputChannelInfos c"
  shows "(\<forall>m < length (outputChannelInfo c'). a' \<le> m \<longrightarrow> dataStrideSamples (outputChannelInfo c' ! m) = 0)
         \<and> a' \<le> numOutputChannelInfos c'"
  using assms by (auto simp: fill_channel_def Let_def nth_list_update split: if_splits)

lemma fillInChannelInfo_output_settles:
  assumes "fillInChannelInfo False v c = Inr c'"
    and z: "\<forall>m < length (outputChannelInfo c). dataStrideSamples (outputChannelInfo c ! m) = 0"
  shows "routing_settled c'"
proof (cases "os_OutputStreamConfiguration v")
  case None
  then show ?thesis using assms by (simp add: fillInChannelInfo_def routing_settled_iff)
next
  case (Some bufList)
  let ?J = "\<lambda>st. (\<forall>m < length (outputChannelInfo (snd (snd st))). fst (snd st) \<le> m \<longrightarrow>
                      dataStrideSamples (outputChannelInfo (snd (snd st)) ! m) = 0)
                 \<and> fst (snd st) \<le> numOutputChannelInfos (snd (snd st))"
  from assms Some obtain cn a where
    l: "for_each (fill_stream False) (zip [0 ..< length bufList] bufList) (0, 0, c) = Inr (cn, a, c')"
    by (auto simp: fillInChannelInfo_def split: sum.splits)
  have inner: "?J s2" if "fill_channel False i n j s1 = Inr s2" "?J s1" for i n j s1 s2
    using that fill_channel_output_settles [of i n j "fst s1" "fst (snd s1)" "snd (snd s1)"
        "fst s2" "fst (snd s2)" "snd (snd s2)"]
    by simp
  have outer: "?J s2" if "fill_stream False b s1 = Inr s2" "?J s1" for b s1 s2
  proof -
    obtain i n where b: "b = (i, n)" by (cases b)
    from that(1) have "for_each (fill_channel False i n) [0 ..< n] s1 = Inr s2"
      by (simp add: fill_stream_def b)
    from for_each_preserves [where P = ?J, OF this that(2)] inner show ?thesis by blast
  qed
  have "?J (0, 0, c)" using z by simp
  from for_each_preserves [where P = ?J, OF l this] outer have "?J (cn, a, c')" by blast
  then show ?thesis by (auto simp: routing_settled_iff)
qed

text \<open>Every refresh of an object with a device leaves the routing array settled.\<close>
lemma updateDetailsFromDevice_settles:
  assumes "updateDetailsFromDevice v c = Inr c'" and "deviceID c \<noteq> 0"
  shows "routing_settled c'"
proof -
  from assms obtain c4 sizes c6 where
    i: "fillInChannelInfo True v (read_lists v sizes c4) = Inr c6"
    and o: "fillInChannelInfo False v c6 = Inr c'"
    by (auto simp: updateDetailsFromDevice_def split: sum.splits)
  let ?c5 = "read_lists v sizes c4"
  have z: "outputChannelInfo ?c5 = replicate maxNumChans zeroInfo"
    by (simp add: read_lists_def)
  have "outputChannelInfo c6 = replicate maxNumChans zeroInfo"
    using fillInChannelInfo_input_keeps [OF i] z by simp
  then have "\<forall>m < length (outputChannelInfo c6). dataStrideSamples (outputChannelInfo c6 ! m) = 0"
    by (simp add: zeroInfo_def)
  then show ?thesis by (rule fillInChannelInfo_output_settles [OF o])
qed

subsection \<open>The duplex device\<close>

lemma duplex_constructed: "CoreAudioInternal_new duplex_view 7 = Inr (Internal duplex_fresh None)"
  by (simp add: duplex_view_def duplex_fresh_def refresh_defs add_grid_fixed_4)

lemma duplex_refresh:
  "updateDetailsFromDevice duplex_view
     (reopen_begin [True, True] [True, True] duplex_fresh) = Inr (duplex_core\<lparr>callbacksAllowed := False\<rparr>)"
  by (simp add: duplex_view_def duplex_fresh_def duplex_core_def channel_0_def channel_1_def
      reopen_begin_def stop_this_def clearFrom_def countNumberOfSetBits_def
      refresh_defs add_grid_fixed_4)

lemma poll_loop_30:
  "poll_loop os sr bs 30 k c =
     (case updateDetailsFromDevice (os k) c of
        Inl e \<Rightarrow> Inl e
      | Inr c' \<Rightarrow>
          if sampleRate c' = sr \<and> bs = bufferSize c'
          then Inr (int 29, [Poll (sampleRate c') (bufferSize c')], c')
          else (case poll_loop os sr bs 29 (Suc k) c' of
                  Inl e \<Rightarrow> Inl e
                | Inr (i', evs, c'') \<Rightarrow>
                    Inr (i', Poll (sampleRate c') (bufferSize c') # Sleep 100 # evs, c'')))"
  using poll_loop.simps(2) [of os sr bs 29 k c] by simp

lemma duplex_reopened:
  "reopen (\<lambda>devID k. duplex_view) [True, True] [True, True] 44100 4 (Internal duplex_fresh None)
     = Inr ([], [ [Poll 44100 4] ], Internal duplex_core None)"
  by (simp add: poll_loop_30 duplex_refresh Let_def reopen_errors_def) (simp add: duplex_core_def)

lemma duplex_core_fields:
  "sampleRate duplex_core = 44100" "bufferSize duplex_core = 4" "callback duplex_core = None"
  "started duplex_core = False" "deviceID duplex_core = 7"
  by (simp_all add: duplex_core_def)

lemma routing_settled_duplex: "routing_settled duplex_core"
  by (auto simp: routing_settled_iff duplex_core_def nth_list_update zeroInfo_def)

lemmas callback_defs =
  audioCallback_def zero_output_channel_def copy_input_channel_def copy_output_channel_def
  client_channel_def channel_views_def Let_def eval_nat_numeral nth_list_update

theorem audioCallback_without_client_witness:
  "callback (this (Internal duplex_core None)) = None
   \<and> routing_settled (this (Internal duplex_core None))
   \<and> audioCallback silent_client (Internal duplex_core None) [] [ [1, 2, 3, 4, 5, 6, 7, 8] ]
       = Inr ([], Internal duplex_core None, [ [0, 0, 0, 0, 0, 0, 0, 0] ])
   \<and> 1 < numOutputChans (this (Internal duplex_core None))
   \<and> 1 < length (outputChannelInfo (this (Internal duplex_core None)))
   \<and> dataStrideSamples (outputChannelInfo (this (Internal duplex_core None)) ! 1) \<noteq> 0
   \<and> 3 < nat (bufferSize (this (Internal duplex_core None)))
   \<and> silent [ [0, 0, 0, 0, 0, 0, 0, 0] ] 0 7"
proof -
  have h1: "callback (this (Internal duplex_core None)) = None"
    by (simp add: duplex_core_def)
  have h2: "routing_settled (this (Internal duplex_core None))"
    by (simp add: routing_settled_duplex)
  have h3: "audioCallback silent_client (Internal duplex_core None) [] [ [1, 2, 3, 4, 5, 6, 7, 8] ]
       = Inr ([], Internal duplex_core None, [ [0, 0, 0, 0, 0, 0, 0, 0] ])"
    by (simp add: callback_defs duplex_core_def channel_0_def channel_1_def)
  have h4: "1 < numOutputChans (this (Internal duplex_core None))"
    and h5: "1 < length (outputChannelInfo (this (Internal duplex_core None)))"
    and h6: "dataStrideSamples (outputChannelInfo (this (Internal duplex_core None)) ! 1) \<noteq> 0"
    and h7: "3 < nat (bufferSize (this (Internal duplex_core None)))"
    by (simp_all add: duplex_core_def channel_1_def)
  from audioCallback_without_client [OF h1 h2 h3 h4 h5 h6 h7]
  have "silent [ [0, 0, 0, 0, 0, 0, 0, 0] ] 0 7"
    by (simp add: duplex_core_def channel_1_def)
  with h1 h2 h3 h4 h5 h6 h7 show ?thesis by blast
qed

subsection \<open>What a refresh leaves alone\<close>

lemma fill_channel_binding:
  "fill_channel input i n j (cn, a, c) = Inr (cn', a', c') \<Longrightarrow> same_binding c c'"
  by (auto simp: fill_channel_def same_binding_def Let_def split: if_splits)

lemma fillInChannelInfo_binding:
  assumes "fillInChannelInfo input v c = Inr c'"
  shows "same_binding c c'"
proof (cases "if input then os_InputStreamConfiguration v else os_OutputStreamConfiguration v")
  case None
  then show ?thesis using assms by (simp add: fillInChannelInfo_def same_binding_def)
next
  case (Some bufList)
  let ?P = "\<lambda>st. same_binding c (snd (snd st))"
  from assms Some obtain cn a where
    l: "for_each (fill_stream input) (zip [0 ..< length bufList] bufList) (0, 0, c) = Inr (cn, a, c')"
    by (auto simp: fillInChannelInfo_def split: sum.splits)
  have inner: "?P s2" if "fill_channel input i n j s1 = Inr s2" "?P s1" for i n j s1 s2
    using that fill_channel_binding [of input i n j "fst s1" "fst (snd s1)" "snd (snd s1)"
        "fst s2" "fst (snd s2)" "snd (snd s2)"]
    by (simp add: same_binding_def)
  have outer: "?P s2" if "fill_stream input b s1 = Inr s2" "?P s1" for b s1 s2
  proof -
    obtain i n where b: "b = (i, n)" by (cases b)
    from that(1) have "for_each (fill_channel input i n) [0 ..< n] s1 = Inr s2"
      by (simp add: fill_stream_def b)
    from for_each_preserves [where P = ?P, OF this that(2)] inner show ?thesis by blast
  qed
  have "?P (0, 0, c)" by (simp add: same_binding_def)
  from for_each_preserves [where P = ?P, OF l this] outer have "?P (cn, a, c')" by blast
  then show ?thesis by simp
qed

lemma setTempBufferSize_binding:
  "setTempBufferSize m n c = Inr c' \<Longrightarrow> same_binding c c'"
  by (auto simp: setTempBufferSize_def same_binding_def Let_def split: sum.splits)

lemma read_rate_and_size_binding:
  "read_rate_and_size v c = Inr c' \<Longrightarrow> same_binding c c'"
proof -
  assume a: "read_rate_and_size v c = Inr c'"
  let ?c2 = "case os_NominalSampleRate v of None \<Rightarrow> c | Some sr \<Rightarrow> c\<lparr>sampleRate := sr\<rparr>"
  have c2: "same_binding c ?c2"
    by (simp add: same_binding_def split: option.splits)
  show ?thesis
  proof (cases "os_BufferFrameSize v")
    case None
    then show ?thesis using a c2 by (simp add: read_rate_and_size_def)
  next
    case (Some f)
    let ?c3 = "?c2\<lparr>bufferSize := sint f\<rparr>"
    have c3: "same_binding c ?c3"
      using c2 by (simp add: same_binding_def)
    show ?thesis
    proof (cases "bufferSize ?c3 > 0")
      case True
      then have "setTempBufferSize (word_of_nat (numInputChans ?c3 + numOutputChans ?c3))
                   (word_of_int (bufferSize ?c3)) ?c3 = Inr c'"
        using a Some by (simp add: read_rate_and_size_def Let_def)
      from setTempBufferSize_binding [OF this] c3 show ?thesis
        by (simp add: same_binding_def)
    next
      case False
      then have "c' = ?c3" using a Some by (simp add: read_rate_and_size_def Let_def)
      then show ?thesis using c3 by simp
    qed
  qed
qed

lemma updateDetailsFromDevice_binding:
  assumes "updateDetailsFromDevice v c = Inr c'"
  shows "same_binding c c'"
proof (cases "deviceID c = 0")
  case True
  then show ?thesis using assms by (auto simp: updateDetailsFromDevice_def same_binding_def)
next
  case False
  from assms False obtain c4 sizes c6 where
    r: "read_rate_and_size v (c\<lparr>timerRunning := False\<rparr>) = Inr c4"
    and i: "fillInChannelInfo True v (read_lists v sizes c4) = Inr c6"
    and o: "fillInChannelInfo False v c6 = Inr c'"
    by (auto simp: updateDetailsFromDevice_def split: sum.splits)
  have "same_binding c4 (read_lists v sizes c4)"
    by (simp add: same_binding_def read_lists_def)
  with read_rate_and_size_binding [OF r] fillInChannelInfo_binding [OF i]
    fillInChannelInfo_binding [OF o]
  show ?thesis by (simp add: same_binding_def)
qed

subsection \<open>reopen\<close>

lemma poll_loop_facts:
  "poll_loop os sr bs n k c = Inr (i, evs, c') \<Longrightarrow>
     polls evs \<le> n \<and> spaced_100ms evs
     \<and> (i = - 1 \<or> 0 \<le> i)
     \<and> (0 \<le> i \<longrightarrow> sampleRate c' = sr \<and> bufferSize c' = bs)
     \<and> (never_matched sr bs evs \<longrightarrow> i = - 1)"
proof (induction n arbitrary: k c i evs c')
  case 0
  then show ?case by (simp add: never_matched_def)
next
  case (Suc n)
  from Suc.prems obtain c1 where u: "updateDetailsFromDevice (os k) c = Inr c1"
    by (auto split: sum.splits)
  show ?case
  proof (cases "sampleRate c1 = sr \<and> bs = bufferSize c1")
    case True
    then show ?thesis using Suc.prems u by (auto simp: never_matched_def)
  next
    case False
    with Suc.prems u obtain evs' where
      r: "poll_loop os sr bs n (Suc k) c1 = Inr (i, evs', c')"
      and e: "evs = Poll (sampleRate c1) (bufferSize c1) # Sleep 100 # evs'"
      by (auto split: sum.splits)
    from Suc.IH [OF r] show ?thesis
      using False by (auto simp: e never_matched_def)
  qed
qed

lemma reopen_errors_facts:
  "sampleRate (reopen_errors i c) = sampleRate c"
  "bufferSize (reopen_errors i c) = bufferSize c"
  "sampleRates (reopen_errors i c) = sampleRates c"
  "bufferSizes (reopen_errors i c) = bufferSizes c"
  "error c = [] \<Longrightarrow> error (reopen_errors i c) = [] \<Longrightarrow> 0 \<le> i"
  "i < 0 \<Longrightarrow> sampleRates c \<noteq> [] \<Longrightarrow> bufferSizes c \<noteq> [] \<Longrightarrow>
     error (reopen_errors i c) = ''Couldn't change sample rate/buffer size''"
  by (auto simp: reopen_errors_def Let_def split: if_splits)

lemma reopen_errors_empty: "error (reopen_errors i c) = [] \<Longrightarrow> 0 \<le> i"
  by (auto simp: reopen_errors_def Let_def split: if_splits)

text \<open>The facade reports the sample rate and the buffer size of its object.\<close>
lemma facade_reports_object:
  "internal d = Some dev \<Longrightarrow>
     getCurrentSampleRate d = sampleRate (this dev)
     \<and> getCurrentBufferSizeSamples d = bufferSize (this dev)"
  by (simp add: getCurrentSampleRate_def getCurrentBufferSizeSamples_def)

lemma observed_Suc:
  "updateDetailsFromDevice (os k) c = Inr c1 \<Longrightarrow> observed os k c (Suc j) = observed os (Suc k) c1 j"
  by (simp add: observed_def)

lemma observed_0: "observed os k c 0 = Poll (sampleRate c) (bufferSize c)"
  by (simp add: observed_def)

lemma polled_0: "polled os k c 0 = []"
  by (simp add: polled_def)

lemma polled_Suc:
  assumes "updateDetailsFromDevice (os k) c = Inr c1"
  shows "polled os k c (Suc n)
           = Poll (sampleRate c1) (bufferSize c1) # Sleep 100 # polled os (Suc k) c1 n"
proof -
  have r: "[1 ..< Suc (Suc n)] = 1 # map Suc [1 ..< Suc n]"
    by (simp add: map_Suc_upt upt_conv_Cons del: upt_Suc)
  have o: "observed os k c (Suc j) = observed os (Suc k) c1 j" for j
    using observed_Suc [of os k c c1 j] assms by simp
  show ?thesis
    unfolding polled_def r
    by (simp add: o observed_0 o_def del: upt_Suc)
qed

lemma poll_loop_refreshed:
  assumes "poll_loop os sr bs m k c = Inr (i, evs, c')"
  shows "\<exists>n \<le> m. refreshed os k n c = Inr c'
     \<and> (\<forall>j. 1 \<le> j \<and> j < n \<longrightarrow> observed os k c j \<noteq> Poll sr bs)
     \<and> ((1 \<le> n \<and> observed os k c n = Poll sr bs \<and> i = int (m - n)
           \<and> evs = polled os k c (n - 1) @ [observed os k c n])
        \<or> (n = m \<and> (\<forall>j. 1 \<le> j \<and> j \<le> m \<longrightarrow> observed os k c j \<noteq> Poll sr bs)
           \<and> i = - 1 \<and> evs = polled os k c m))"
  using assms
proof (induction m arbitrary: k c i evs c')
  case 0
  then show ?case by (simp add: polled_0)
next
  case (Suc m)
  from Suc.prems obtain c1 where u: "updateDetailsFromDevice (os k) c = Inr c1"
    by (auto split: sum.splits)
  have o: "observed os k c (Suc j) = observed os (Suc k) c1 j" for j
    using observed_Suc [of os k c c1 j] u by simp
  have o1: "observed os k c (Suc 0) = Poll (sampleRate c1) (bufferSize c1)"
    by (simp add: o observed_0)
  show ?case
  proof (cases "sampleRate c1 = sr \<and> bs = bufferSize c1")
    case True
    with Suc.prems u have r: "i = int m" "evs = [Poll (sampleRate c1) (bufferSize c1)]" "c' = c1"
      by auto
    have "refreshed os k (Suc 0) c = Inr c'" using u r by simp
    moreover have "observed os k c (Suc 0) = Poll sr bs" using o1 True by simp
    moreover have "evs = polled os k c (Suc 0 - 1) @ [observed os k c (Suc 0)]"
      using r o1 by (simp add: polled_0)
    moreover have "i = int (Suc m - Suc 0)" using r by simp
    ultimately show ?thesis
      by (intro exI [of _ "Suc 0"]) simp
  next
    case False
    with Suc.prems u obtain evs' where
      r: "poll_loop os sr bs m (Suc k) c1 = Inr (i, evs', c')"
      and e: "evs = Poll (sampleRate c1) (bufferSize c1) # Sleep 100 # evs'"
      by (auto split: sum.splits)
    from Suc.IH [OF r] obtain n where n: "n \<le> m"
      and f: "refreshed os (Suc k) n c1 = Inr c'"
      and b: "\<forall>j. 1 \<le> j \<and> j < n \<longrightarrow> observed os (Suc k) c1 j \<noteq> Poll sr bs"
      and d: "(1 \<le> n \<and> observed os (Suc k) c1 n = Poll sr bs \<and> i = int (m - n)
                 \<and> evs' = polled os (Suc k) c1 (n - 1) @ [observed os (Suc k) c1 n])
              \<or> (n = m \<and> (\<forall>j. 1 \<le> j \<and> j \<le> m \<longrightarrow> observed os (Suc k) c1 j \<noteq> Poll sr bs)
                 \<and> i = - 1 \<and> evs' = polled os (Suc k) c1 m)"
      by blast
    have first: "observed os k c (Suc 0) \<noteq> Poll sr bs"
      using o1 False by auto
    have before: "observed os k c j \<noteq> Poll sr bs" if "1 \<le> j" "j < Suc n" for j
    proof (cases j)
      case 0
      then show ?thesis using that by simp
    next
      case (Suc j')
      show ?thesis
      proof (cases j')
        case 0
        then show ?thesis using first Suc by simp
      next
        case (Suc j'')
        then have "1 \<le> j'" "j' < n" using that \<open>j = Suc j'\<close> by simp_all
        then show ?thesis using b o \<open>j = Suc j'\<close> by simp
      qed
    qed
    have f': "refreshed os k (Suc n) c = Inr c'" using u f by simp
    from d show ?thesis
    proof
      assume a: "1 \<le> n \<and> observed os (Suc k) c1 n = Poll sr bs \<and> i = int (m - n)
                 \<and> evs' = polled os (Suc k) c1 (n - 1) @ [observed os (Suc k) c1 n]"
      then obtain n' where n': "n = Suc n'" by (cases n) simp_all
      have "evs = polled os k c (Suc n - 1) @ [observed os k c (Suc n)]"
        using a e by (simp add: n' polled_Suc [of os k c c1, OF u] o)
      moreover have "observed os k c (Suc n) = Poll sr bs" using a o by simp
      moreover have "i = int (Suc m - Suc n)" using a by simp
      ultimately show ?thesis
        using f' before n by (intro exI [of _ "Suc n"]) simp
    next
      assume a: "n = m \<and> (\<forall>j. 1 \<le> j \<and> j \<le> m \<longrightarrow> observed os (Suc k) c1 j \<noteq> Poll sr bs)
                 \<and> i = - 1 \<and> evs' = polled os (Suc k) c1 m"
      have all: "observed os k c j \<noteq> Poll sr bs" if "1 \<le> j" "j \<le> Suc m" for j
      proof (cases j)
        case 0
        then show ?thesis using that by simp
      next
        case (Suc j')
        show ?thesis
        proof (cases j')
          case 0
          then show ?thesis using first Suc by simp
        next
          case (Suc j'')
          then have "1 \<le> j'" "j' \<le> m" using that \<open>j = Suc j'\<close> by simp_all
          then show ?thesis using a o \<open>j = Suc j'\<close> by simp
        qed
      qed
      have "evs = polled os k c (Suc m)"
        using a e by (simp add: polled_Suc [of os k c c1, OF u])
      then show ?thesis
        using f' before all a by (intro exI [of _ "Suc n"]) simp
    qed
  qed
qed


lemma refreshed_binding:
  "refreshed os k n c = Inr c' \<Longrightarrow> same_binding c c'"
proof (induction n arbitrary: k c)
  case 0
  then show ?case by (simp add: same_binding_def)
next
  case (Suc n)
  from Suc.prems obtain c1 where u: "updateDetailsFromDevice (os k) c = Inr c1"
    and r: "refreshed os (Suc k) n c1 = Inr c'"
    by (auto split: sum.splits)
  from updateDetailsFromDevice_binding [OF u] Suc.IH [OF r]
  show ?case by (simp add: same_binding_def)
qed

lemma reopen_begin_facts:
  "deviceID (reopen_begin ins outs c) = deviceID c"
  "error (reopen_begin ins outs c) = []"
  by (simp_all add: reopen_begin_def stop_this_def Let_def)

lemma reopen_errors_shape:
  "reopen_errors i c = c\<lparr>error := error (reopen_errors i c)\<rparr>"
  by (simp add: reopen_errors_def Let_def)

lemma reopen_errors_converged:
  "0 \<le> i \<Longrightarrow> error c = [] \<Longrightarrow> sampleRates c \<noteq> [] \<Longrightarrow> bufferSizes c \<noteq> [] \<Longrightarrow>
     error (reopen_errors i c) = []"
  by (simp add: reopen_errors_def Let_def)

text \<open>
  Claim C2. Whenever \<open>reopen\<close> returns, its own loop has made \<open>n\<close> polls, with \<open>n\<close> from 1
  to 30: the object it leaves is the one behind \<open>n\<close> refreshes, each answered by the HAL
  in its turn, with the returned string as \<open>error\<close>. None of the polls before poll \<open>n\<close>
  saw the requested sample rate together with the requested buffer size, and behind each
  of them the loop slept for 100 ms. Either poll \<open>n\<close> saw the requested values and ended
  the loop at once; then, the lists of sample rates and of buffer sizes not being empty,
  the returned string is empty for an object without a slave, and is what \<open>reopen\<close> of
  the slave returns otherwise. Or none of 30 polls saw them; then, the lists not being
  empty, the returned string is "Couldn't change sample rate/buffer size". In both cases
  an empty string returned means that the object holds the requested sample rate and the
  requested buffer size.
\<close>
theorem reopen_polls_until_converged:
  assumes "reopen os inputChannels outputChannels newSampleRate bufferSizeSamples (Internal c inp)
             = Inr (err, traces, dev')"
  shows "\<exists>n c2. 1 \<le> n \<and> n \<le> 30
    \<and> refreshed (os (deviceID c)) 0 n (reopen_begin inputChannels outputChannels c) = Inr c2
    \<and> this dev' = c2\<lparr>error := err, callbacksAllowed := True\<rparr>
    \<and> traces \<noteq> []
    \<and> (\<forall>j. 1 \<le> j \<and> j < n \<longrightarrow>
          observed (os (deviceID c)) 0 (reopen_begin inputChannels outputChannels c) j
            \<noteq> Poll newSampleRate bufferSizeSamples)
    \<and> (if observed (os (deviceID c)) 0 (reopen_begin inputChannels outputChannels c) n
            = Poll newSampleRate bufferSizeSamples
        then hd traces
               = polled (os (deviceID c)) 0 (reopen_begin inputChannels outputChannels c) (n - 1)
                 @ [Poll newSampleRate bufferSizeSamples]
             \<and> (sampleRates c2 \<noteq> [] \<and> bufferSizes c2 \<noteq> [] \<longrightarrow>
                  (case inp of
                     None \<Rightarrow> err = []
                   | Some d \<Rightarrow>
                       (\<exists>tr d'. reopen os inputChannels outputChannels newSampleRate
                                  bufferSizeSamples (stop False d) = Inr (err, tr, d'))))
        else n = 30
             \<and> hd traces
                 = polled (os (deviceID c)) 0 (reopen_begin inputChannels outputChannels c) 30
             \<and> (sampleRates c2 \<noteq> [] \<and> bufferSizes c2 \<noteq> [] \<longrightarrow>
                  err = ''Couldn't change sample rate/buffer size''))
    \<and> (err = [] \<longrightarrow>
          sampleRate (this dev') = newSampleRate \<and> bufferSize (this dev') = bufferSizeSamples)
    \<and> polls (hd traces) \<le> 30 \<and> spaced_100ms (hd traces)
    \<and> (never_matched newSampleRate bufferSizeSamples (hd traces)
          \<and> sampleRates (this dev') \<noteq> [] \<and> bufferSizes (this dev') \<noteq> [] \<longrightarrow>
          err = ''Couldn't change sample rate/buffer size'')"
proof -
  let ?c1 = "reopen_begin inputChannels outputChannels c"
  let ?hal = "os (deviceID c)"
  let ?want = "Poll newSampleRate bufferSizeSamples"
  from assms obtain i evs c2 where
    p: "poll_loop ?hal newSampleRate bufferSizeSamples 30 0 ?c1 = Inr (i, evs, c2)"
    by (auto simp: Let_def reopen_begin_facts split: sum.splits)
  let ?c3 = "reopen_errors i c2"
  have c3: "?c3 = c2\<lparr>error := error ?c3\<rparr>"
    by (rule reopen_errors_shape)
  have shape: "traces \<noteq> [] \<and> hd traces = evs
      \<and> this dev' = ?c3\<lparr>error := err, callbacksAllowed := True\<rparr>
      \<and> (err = [] \<longrightarrow> error ?c3 = [])
      \<and> (error ?c3 \<noteq> [] \<longrightarrow> err = error ?c3)
      \<and> (error ?c3 = [] \<longrightarrow>
            (case inp of
               None \<Rightarrow> err = []
             | Some d \<Rightarrow>
                 (\<exists>tr d'. reopen os inputChannels outputChannels newSampleRate
                            bufferSizeSamples (stop False d) = Inr (err, tr, d'))))"
    using assms p
    by (auto simp: Let_def reopen_begin_facts split: sum.splits option.splits if_splits)
  have this': "this dev' = c2\<lparr>error := err, callbacksAllowed := True\<rparr>"
  proof -
    have "?c3\<lparr>error := err, callbacksAllowed := True\<rparr>
            = c2\<lparr>error := error ?c3\<rparr>\<lparr>error := err, callbacksAllowed := True\<rparr>"
      using c3 by simp
    then show ?thesis using shape by simp
  qed
  from poll_loop_refreshed [OF p] obtain n where n: "n \<le> 30"
    and f: "refreshed ?hal 0 n ?c1 = Inr c2"
    and b: "\<forall>j. 1 \<le> j \<and> j < n \<longrightarrow> observed ?hal 0 ?c1 j \<noteq> ?want"
    and d: "(1 \<le> n \<and> observed ?hal 0 ?c1 n = ?want \<and> i = int (30 - n)
              \<and> evs = polled ?hal 0 ?c1 (n - 1) @ [observed ?hal 0 ?c1 n])
            \<or> (n = 30 \<and> (\<forall>j. 1 \<le> j \<and> j \<le> 30 \<longrightarrow> observed ?hal 0 ?c1 j \<noteq> ?want)
              \<and> i = - 1 \<and> evs = polled ?hal 0 ?c1 30)"
    by blast
  have e2: "error c2 = []"
    using refreshed_binding [OF f] by (simp add: same_binding_def reopen_begin_facts)
  have on: "observed ?hal 0 ?c1 n = Poll (sampleRate c2) (bufferSize c2)"
    using f by (simp add: observed_def)
  have lists: "sampleRates ?c3 = sampleRates c2" "bufferSizes ?c3 = bufferSizes c2"
    by (simp_all add: reopen_errors_facts)
  note pf = poll_loop_facts [OF p]
  have never: "never_matched newSampleRate bufferSizeSamples (hd traces)
          \<and> sampleRates (this dev') \<noteq> [] \<and> bufferSizes (this dev') \<noteq> [] \<longrightarrow>
          err = ''Couldn't change sample rate/buffer size''"
  proof (intro impI, elim conjE)
    assume m: "never_matched newSampleRate bufferSizeSamples (hd traces)"
      and l: "sampleRates (this dev') \<noteq> []" "bufferSizes (this dev') \<noteq> []"
    from pf m shape have "i < 0" by simp
    moreover have "sampleRates c2 \<noteq> []" "bufferSizes c2 \<noteq> []"
      using l this' by simp_all
    ultimately show "err = ''Couldn't change sample rate/buffer size''"
      using reopen_errors_facts(6) shape by simp
  qed
  have trace: "polls (hd traces) \<le> 30 \<and> spaced_100ms (hd traces)"
    using pf shape by simp
  have tne: "traces \<noteq> []"
    using shape by simp
  from d show ?thesis
  proof
    assume a: "1 \<le> n \<and> observed ?hal 0 ?c1 n = ?want \<and> i = int (30 - n)
              \<and> evs = polled ?hal 0 ?c1 (n - 1) @ [observed ?hal 0 ?c1 n]"
    then have i: "0 \<le> i" by simp
    have m: "sampleRate c2 = newSampleRate \<and> bufferSize c2 = bufferSizeSamples"
      using a on by simp
    have tr: "hd traces = polled ?hal 0 ?c1 (n - 1) @ [?want]"
      using a shape by simp
    have ok: "sampleRates c2 \<noteq> [] \<and> bufferSizes c2 \<noteq> [] \<longrightarrow>
                (case inp of
                   None \<Rightarrow> err = []
                 | Some d \<Rightarrow>
                     (\<exists>tr d'. reopen os inputChannels outputChannels newSampleRate
                                bufferSizeSamples (stop False d) = Inr (err, tr, d')))"
      using reopen_errors_converged [OF i e2] shape by blast
    have fin: "err = [] \<longrightarrow>
          sampleRate (this dev') = newSampleRate \<and> bufferSize (this dev') = bufferSizeSamples"
      using m this' by simp
    have branch: "if observed ?hal 0 ?c1 n = ?want
        then hd traces = polled ?hal 0 ?c1 (n - 1) @ [?want]
             \<and> (sampleRates c2 \<noteq> [] \<and> bufferSizes c2 \<noteq> [] \<longrightarrow>
                  (case inp of
                     None \<Rightarrow> err = []
                   | Some d \<Rightarrow>
                       (\<exists>tr d'. reopen os inputChannels outputChannels newSampleRate
                                  bufferSizeSamples (stop False d) = Inr (err, tr, d'))))
        else n = 30
             \<and> hd traces = polled ?hal 0 ?c1 30
             \<and> (sampleRates c2 \<noteq> [] \<and> bufferSizes c2 \<noteq> [] \<longrightarrow>
                  err = ''Couldn't change sample rate/buffer size'')"
      using a tr ok by simp
    have n1: "1 \<le> n" using a by simp
    from n1 n f this' tne b branch fin trace never show ?thesis
      by blast
  next
    assume a: "n = 30 \<and> (\<forall>j. 1 \<le> j \<and> j \<le> 30 \<longrightarrow> observed ?hal 0 ?c1 j \<noteq> ?want)
              \<and> i = - 1 \<and> evs = polled ?hal 0 ?c1 30"
    then have no: "observed ?hal 0 ?c1 n \<noteq> ?want" by simp
    have tr: "hd traces = polled ?hal 0 ?c1 30"
      using a shape by simp
    have bad: "sampleRates c2 \<noteq> [] \<and> bufferSizes c2 \<noteq> [] \<longrightarrow>
                 err = ''Couldn't change sample rate/buffer size''"
    proof (intro impI, elim conjE)
      assume l: "sampleRates c2 \<noteq> []" "bufferSizes c2 \<noteq> []"
      have "i < 0" using a by simp
      from reopen_errors_facts(6) [OF this l] shape
      show "err = ''Couldn't change sample rate/buffer size''" by simp
    qed
    have "err \<noteq> []"
    proof
      assume "err = []"
      then have "error ?c3 = []" using shape by simp
      from reopen_errors_empty [OF this] a show False by simp
    qed
    then have fin: "err = [] \<longrightarrow>
          sampleRate (this dev') = newSampleRate \<and> bufferSize (this dev') = bufferSizeSamples"
      by simp
    have branch: "if observed ?hal 0 ?c1 n = ?want
        then hd traces = polled ?hal 0 ?c1 (n - 1) @ [?want]
             \<and> (sampleRates c2 \<noteq> [] \<and> bufferSizes c2 \<noteq> [] \<longrightarrow>
                  (case inp of
                     None \<Rightarrow> err = []
                   | Some d \<Rightarrow>
                       (\<exists>tr d'. reopen os inputChannels outputChannels newSampleRate
                                  bufferSizeSamples (stop False d) = Inr (err, tr, d'))))
        else n = 30
             \<and> hd traces = polled ?hal 0 ?c1 30
             \<and> (sampleRates c2 \<noteq> [] \<and> bufferSizes c2 \<noteq> [] \<longrightarrow>
                  err = ''Couldn't change sample rate/buffer size'')"
      using no tr bad a by simp
    have n1: "1 \<le> n" using a by simp
    from n1 n f this' tne b branch fin trace never show ?thesis
      by blast
  qed
qed


lemma poll_loop_stuck:
  assumes "\<And>k. updateDetailsFromDevice (os k) c = Inr c"
    and "\<not> (sampleRate c = sr \<and> bs = bufferSize c)"
  shows "poll_loop os sr bs n k c =
           Inr (- 1, concat (replicate n [Poll (sampleRate c) (bufferSize c), Sleep 100]), c)"
  using assms by (induction n arbitrary: k) simp_all

lemma duplex_reopen_begin:
  "reopen_begin [True, True] [True, True] duplex_core = duplex_core\<lparr>callbacksAllowed := False\<rparr>"
  by (simp add: duplex_core_def reopen_begin_def stop_this_def clearFrom_def
      countNumberOfSetBits_def Let_def)

lemma duplex_refresh_again:
  "updateDetailsFromDevice duplex_view (duplex_core\<lparr>callbacksAllowed := False\<rparr>)
     = Inr (duplex_core\<lparr>callbacksAllowed := False\<rparr>)"
  by (simp add: duplex_view_def duplex_core_def channel_0_def channel_1_def
      refresh_defs add_grid_fixed_4)

lemma duplex_stuck:
  "reopen (\<lambda>devID k. duplex_view) [True, True] [True, True] 48000 256 (Internal duplex_core None)
     = Inr (''Couldn't change sample rate/buffer size'', [stuck_trace], Internal duplex_failed None)"
proof -
  have "poll_loop (\<lambda>k. duplex_view) 48000 256 30 0 (duplex_core\<lparr>callbacksAllowed := False\<rparr>)
          = Inr (- 1, stuck_trace, duplex_core\<lparr>callbacksAllowed := False\<rparr>)"
    unfolding stuck_trace_def
    using poll_loop_stuck [of "\<lambda>k. duplex_view" "duplex_core\<lparr>callbacksAllowed := False\<rparr>" 48000 256 30 0]
      duplex_refresh_again
    by (simp add: duplex_core_def)
  then show ?thesis
    by (simp add: duplex_reopen_begin Let_def reopen_errors_def duplex_failed_def)
       (simp add: duplex_core_def)
qed

lemma poll_loop_waits:
  assumes "\<And>j. j < m \<Longrightarrow> updateDetailsFromDevice (os (k + j)) c = Inr c"
    and "\<not> (sampleRate c = sr \<and> bs = bufferSize c)"
  shows "poll_loop os sr bs (m + n) k c =
           (case poll_loop os sr bs n (k + m) c of
              Inl e \<Rightarrow> Inl e
            | Inr (i, evs, c') \<Rightarrow>
                Inr (i, concat (replicate m [Poll (sampleRate c) (bufferSize c), Sleep 100]) @ evs, c'))"
  using assms(1)
proof (induction m arbitrary: k)
  case 0
  then show ?case by (simp split: sum.splits)
next
  case (Suc m)
  have u: "updateDetailsFromDevice (os k) c = Inr c"
    using Suc.prems [of 0] by simp
  have "updateDetailsFromDevice (os (Suc k + j)) c = Inr c" if "j < m" for j
    using Suc.prems [of "Suc j"] that by simp
  from Suc.IH [OF this]
  have "poll_loop os sr bs (m + n) (Suc k) c =
           (case poll_loop os sr bs n (Suc k + m) c of
              Inl e \<Rightarrow> Inl e
            | Inr (i, evs, c') \<Rightarrow>
                Inr (i, concat (replicate m [Poll (sampleRate c) (bufferSize c), Sleep 100]) @ evs, c'))"
    by simp
  then show ?case
    using u assms(2) by (simp split: sum.splits)
qed

lemma late_refresh:
  "updateDetailsFromDevice resampled_view (duplex_core\<lparr>callbacksAllowed := False\<rparr>)
     = Inr (duplex_core\<lparr>sampleRate := 48000, callbacksAllowed := False\<rparr>)"
  by (simp add: resampled_view_def duplex_view_def duplex_core_def channel_0_def channel_1_def
      refresh_defs add_grid_fixed_4)

lemma late_reopened:
  "reopen late_hal [True, True] [True, True] 48000 4 (Internal duplex_core None)
     = Inr ([], [late_trace], Internal duplex_late None)"
proof -
  let ?c = "duplex_core\<lparr>callbacksAllowed := False\<rparr>"
  have w: "updateDetailsFromDevice (late_hal 7 (0 + j)) ?c = Inr ?c" if "j < 29" for j
    using that by (simp add: late_hal_def duplex_refresh_again)
  have n: "\<not> (sampleRate ?c = 48000 \<and> (4 :: int) = bufferSize ?c)"
    by (simp add: duplex_core_def)
  have l: "poll_loop (late_hal 7) 48000 4 1 (0 + 29) ?c
             = Inr (0, [Poll 48000 4], duplex_core\<lparr>sampleRate := 48000, callbacksAllowed := False\<rparr>)"
    by (simp add: late_hal_def late_refresh) (simp add: duplex_core_def)
  have s: "poll_loop (late_hal 7) 48000 4 (29 + 1) 0 ?c =
           (case poll_loop (late_hal 7) 48000 4 1 (0 + 29) ?c of
              Inl e \<Rightarrow> Inl e
            | Inr (i, evs, c') \<Rightarrow>
                Inr (i, concat (replicate 29 [Poll (sampleRate ?c) (bufferSize ?c), Sleep 100]) @ evs, c'))"
    by (rule poll_loop_waits [of 29 "late_hal 7" 0 ?c 48000 4 1, OF w n])
  have f: "sampleRate ?c = 44100" "bufferSize ?c = 4"
    by (simp_all add: duplex_core_def)
  have t: "(30 :: nat) = 29 + 1" by simp
  have "poll_loop (late_hal 7) 48000 4 30 0 ?c
          = Inr (0, late_trace, duplex_core\<lparr>sampleRate := 48000, callbacksAllowed := False\<rparr>)"
    by (subst t) (simp only: s l f late_trace_def sum.case prod.case)
  then show ?thesis
    by (simp add: duplex_reopen_begin Let_def reopen_errors_def duplex_late_def duplex_core_fields)
       (simp add: duplex_core_def)
qed

theorem reopen_polls_until_converged_witness:
  "reopen (\<lambda>devID k. duplex_view) [True, True] [True, True] 44100 4 (Internal duplex_fresh None)
     = Inr ([], [ [Poll 44100 4] ], Internal duplex_core None)
   \<and> sampleRate duplex_core = 44100 \<and> bufferSize duplex_core = 4
   \<and> reopen late_hal [True, True] [True, True] 48000 4 (Internal duplex_core None)
     = Inr ([], [late_trace], Internal duplex_late None)
   \<and> sampleRate duplex_late = 48000 \<and> bufferSize duplex_late = 4
   \<and> reopen (\<lambda>devID k. duplex_view) [True, True] [True, True] 48000 256 (Internal duplex_core None)
     = Inr (''Couldn't change sample rate/buffer size'', [stuck_trace], Internal duplex_failed None)
   \<and> sampleRates duplex_failed \<noteq> [] \<and> bufferSizes duplex_failed \<noteq> []"
proof -
  have l: "sampleRates duplex_failed \<noteq> []" "bufferSizes duplex_failed \<noteq> []"
    by (simp_all add: duplex_failed_def duplex_core_def)
  from reopen_polls_until_converged [OF duplex_reopened]
  have a: "sampleRate duplex_core = 44100 \<and> bufferSize duplex_core = 4"
    by auto
  from reopen_polls_until_converged [OF late_reopened]
  have b: "sampleRate duplex_late = 48000 \<and> bufferSize duplex_late = 4"
    by auto
  from duplex_reopened late_reopened duplex_stuck l a b show ?thesis by blast
qed


subsection \<open>timerCallback\<close>










subsection \<open>audioCallback with a sparse input mask\<close>

lemma sparse_refresh:
  "updateDetailsFromDevice duplex_view
     (reopen_begin [False, True] [True, True] duplex_fresh) = Inr (sparse_core\<lparr>callbacksAllowed := False\<rparr>)"
  by (simp add: duplex_view_def duplex_fresh_def duplex_core_def sparse_core_def
      channel_0_def channel_1_def
      reopen_begin_def stop_this_def clearFrom_def countNumberOfSetBits_def
      refresh_defs add_grid_fixed_4)

lemma sparse_reopened:
  "reopen (\<lambda>devID k. duplex_view) [False, True] [True, True] 44100 4 (Internal duplex_fresh None)
     = Inr ([], [ [Poll 44100 4] ], Internal sparse_core None)"
  by (simp add: poll_loop_30 sparse_refresh Let_def reopen_errors_def)
     (simp add: sparse_core_def duplex_core_def)

lemma sparse_started:
  "start (\<lambda>devID. True) (\<lambda>devID. True) (Some 5) (Internal sparse_core None) = (True, sparse_running)"
  by (simp add: start_this_def sparse_running_def sparse_core_def duplex_core_def Let_def)

text \<open>
  Claim C1 at the duplex device reopened with the input mask 0b10 and started: logical
  channel 0 has \<open>sourceChannelNum\<close> 1, the loop takes its destination from
  \<open>tempInputBuffers[1]\<close>, which \<open>setTempBufferSize\<close> left null, and the first sample is
  written through the null pointer. \<open>tempInputBuffers[0]\<close>, the channel that the client is
  handed, is never written.
\<close>
theorem audioCallback_sparse_mask:
  "reopen (\<lambda>devID k. duplex_view) [False, True] [True, True] 44100 4 (Internal duplex_fresh None)
     = Inr ([], [ [Poll 44100 4] ], Internal sparse_core None)
   \<and> start (\<lambda>devID. True) (\<lambda>devID. True) (Some 5) (Internal sparse_core None) = (True, sparse_running)
   \<and> numInputChans (this sparse_running) = 1
   \<and> sourceChannelNum (inputChannelInfo (this sparse_running) ! 0) = 1
   \<and> tempInputBuffers (this sparse_running) ! 0 = Some 0
   \<and> tempInputBuffers (this sparse_running) ! 1 = None
   \<and> audioCallback client sparse_running [ramp] outData = Inl NullPointer"
proof -
  have "audioCallback client sparse_running [ramp] outData = Inl NullPointer"
    by (simp add: callback_defs sparse_running_def sparse_core_def duplex_core_def channel_1_def
        ramp_def)
  moreover have "numInputChans (this sparse_running) = 1
   \<and> sourceChannelNum (inputChannelInfo (this sparse_running) ! 0) = 1
   \<and> tempInputBuffers (this sparse_running) ! 0 = Some 0
   \<and> tempInputBuffers (this sparse_running) ! 1 = None"
    by (simp add: sparse_running_def sparse_core_def duplex_core_def channel_1_def)
  ultimately show ?thesis using sparse_reopened sparse_started by blast
qed

text \<open>With every channel active the same callback deinterleaves: channel 0 gets the
  frames 1, 3, 5, 7 and channel 1 the frames 2, 4, 6, 8.\<close>
lemma audioCallback_dense_mask:
  "(case audioCallback silent_client (Internal (duplex_core\<lparr>started := True, callback := Some 5\<rparr>) None)
           [ramp] [ramp] of
      Inl e \<Rightarrow> False
    | Inr (events, dev', outData') \<Rightarrow>
        events = [IOCallback 5 2 2 4]
        \<and> channel_views (audioBuffer (this dev')) (tempInputBuffers (this dev')) 2 4
            = [ [1, 3, 5, 7], [2, 4, 6, 8] ]
        \<and> outData' = [ [0, 0, 0, 0, 0, 0, 0, 0] ])"
  by (simp add: callback_defs duplex_core_def channel_0_def channel_1_def ramp_def
      silent_client_def upt_0_2)

subsection \<open>start on a master with a slave\<close>


lemma start_this_keeps:
  "isSlaveDevice (start_this addIOProc deviceStart cb c) = isSlaveDevice c"
  by (simp add: start_this_def Let_def)






lemma pair_constructed:
  "CoreAudioIODevice_new (\<lambda>devID. duplex_view) ''out'' 9 0 7 0
     = Inr \<lparr>deviceName = ''out'', inputIndex = 0, outputIndex = 0, isOpen' = False,
            isStarted = False, lastError = [], internal = Some fresh_pair\<rparr>"
proof -
  have "CoreAudioInternal_new duplex_view 9 = Inr (Internal (duplex_fresh\<lparr>deviceID := 9\<rparr>) None)"
    by (simp add: duplex_view_def duplex_fresh_def refresh_defs add_grid_fixed_4)
  then show ?thesis
    by (simp add: CoreAudioIODevice_new_def duplex_constructed fresh_pair_def Let_def)
       (simp add: duplex_fresh_def)
qed

lemma slave_refresh:
  "updateDetailsFromDevice duplex_view
     (reopen_begin [True, True] [True, True] (duplex_fresh\<lparr>deviceID := 9, isSlaveDevice := True\<rparr>))
   = Inr (duplex_slave\<lparr>callbacksAllowed := False\<rparr>)"
  by (simp add: duplex_view_def duplex_fresh_def duplex_core_def duplex_slave_def
      channel_0_def channel_1_def
      reopen_begin_def stop_this_def clearFrom_def countNumberOfSetBits_def
      refresh_defs add_grid_fixed_4)

lemma pair_reopened:
  "reopen (\<lambda>devID k. duplex_view) [True, True] [True, True] 44100 4 fresh_pair
     = Inr ([], [ [Poll 44100 4], [Poll 44100 4] ], duplex_pair)"
proof -
  have s: "stop_this False (duplex_fresh\<lparr>deviceID := 9, isSlaveDevice := True\<rparr>)
             = duplex_fresh\<lparr>deviceID := 9, isSlaveDevice := True\<rparr>"
    by (simp add: stop_this_def duplex_fresh_def)
  have r: "reopen (\<lambda>devID k. duplex_view) [True, True] [True, True] 44100 4
             (Internal (duplex_fresh\<lparr>deviceID := 9, isSlaveDevice := True\<rparr>) None)
           = Inr ([], [ [Poll 44100 4] ], Internal duplex_slave None)"
    by (simp add: poll_loop_30 slave_refresh Let_def reopen_errors_def)
       (simp add: duplex_slave_def duplex_core_def)
  have "reopen (\<lambda>devID k. duplex_view) [True, True] [True, True] 44100 4
             (Internal duplex_fresh
                (Some (Internal (duplex_fresh\<lparr>deviceID := 9, isSlaveDevice := True\<rparr>) None)))
           = Inr ([], [ [Poll 44100 4], [Poll 44100 4] ], duplex_pair)"
    apply (subst reopen.simps)
    apply (simp add: poll_loop_30 duplex_refresh Let_def reopen_errors_def duplex_core_fields
        s r del: reopen.simps)
    apply (simp add: duplex_pair_def duplex_core_def)
    done
  then show ?thesis by (simp only: fresh_pair_def)
qed



subsection \<open>The constructor of the facade\<close>

lemma CoreAudioInternal_new_opened:
  assumes "CoreAudioInternal_new v devID = Inr dv" and "devID \<noteq> 0"
  shows "\<exists>c. dv = Internal c None \<and> deviceID c = devID \<and> error c = [] \<and> \<not> isSlaveDevice c"
proof -
  from assms obtain c where u: "updateDetailsFromDevice v (initial_core devID) = Inr c"
    and d: "dv = Internal c None"
    by (auto simp: CoreAudioInternal_new_def split: sum.splits)
  from updateDetailsFromDevice_binding [OF u]
  have "deviceID c = devID \<and> error c = [] \<and> \<not> isSlaveDevice c"
    by (simp add: same_binding_def initial_core_def)
  with d show ?thesis by blast
qed

text \<open>The constructor reports an error for the id 0 and for no other id.\<close>
lemma CoreAudioInternal_new_error:
  "CoreAudioInternal_new v devID = Inr dv \<Longrightarrow> (error (this dv) \<noteq> []) = (devID = 0)"
proof (cases "devID = 0")
  case True
  assume "CoreAudioInternal_new v devID = Inr dv"
  then show ?thesis using True by (auto simp: CoreAudioInternal_new_def)
next
  case False
  assume "CoreAudioInternal_new v devID = Inr dv"
  from CoreAudioInternal_new_opened [OF this False] False show ?thesis by auto
qed

text \<open>
  Claim C5, as the code has it. With an output id that is neither 0 nor the input id, the
  constructor keeps the master, which is the object built for the output id, and leaves
  \<open>lastError\<close> empty, whatever the HAL answers about either device. With the input id 0
  no slave is built and the device is output-only; with any other input id the object
  built for it is attached as the slave, \<open>isSlaveDevice\<close> set.
\<close>
theorem CoreAudioIODevice_new_distinct_ids:
  assumes "outputDeviceId \<noteq> 0" and "outputDeviceId \<noteq> inputDeviceId"
    and "CoreAudioIODevice_new os name inputDeviceId inIndex outputDeviceId outIndex = Inr d"
  shows "lastError d = []
    \<and> (\<exists>m inp. internal d = Some (Internal m inp)
          \<and> CoreAudioInternal_new (os outputDeviceId) outputDeviceId = Inr (Internal m None)
          \<and> deviceID m = outputDeviceId \<and> error m = []
          \<and> (inputDeviceId = 0 \<longrightarrow> inp = None)
          \<and> (inputDeviceId \<noteq> 0 \<longrightarrow>
                (\<exists>s. inp = Some (Internal (s\<lparr>isSlaveDevice := True\<rparr>) None)
                   \<and> CoreAudioInternal_new (os inputDeviceId) inputDeviceId = Inr (Internal s None)
                   \<and> deviceID s = inputDeviceId \<and> error s = [])))"
proof -
  from assms obtain dv where n: "CoreAudioInternal_new (os outputDeviceId) outputDeviceId = Inr dv"
    by (auto simp: CoreAudioIODevice_new_def Let_def split: sum.splits)
  from CoreAudioInternal_new_opened [OF n assms(1)] obtain m where
    m: "dv = Internal m None" "deviceID m = outputDeviceId" "error m = []"
    by blast
  show ?thesis
  proof (cases "inputDeviceId = 0")
    case True
    then show ?thesis
      using assms n m by (auto simp: CoreAudioIODevice_new_def Let_def)
  next
    case False
    from assms n m False obtain sv where
      n2: "CoreAudioInternal_new (os inputDeviceId) inputDeviceId = Inr sv"
      by (auto simp: CoreAudioIODevice_new_def Let_def split: sum.splits)
    from CoreAudioInternal_new_opened [OF n2 False] obtain s where
      s: "sv = Internal s None" "deviceID s = inputDeviceId" "error s = []"
      by blast
    show ?thesis
      using assms n m n2 s False by (auto simp: CoreAudioIODevice_new_def Let_def)
  qed
qed

lemma refused_constructed:
  "devID \<noteq> 0 \<Longrightarrow> CoreAudioInternal_new refusing_view devID = Inr (Internal (refused_core devID) None)"
  by (simp add: refusing_view_def refused_core_def refresh_defs)

lemma input_refused_constructed:
  "CoreAudioIODevice_new input_refused ''out'' 9 0 7 0 = Inr input_refused_device"
  by (simp add: CoreAudioIODevice_new_def input_refused_def duplex_constructed
      refused_constructed Let_def input_refused_device_def)
     (simp add: duplex_fresh_def)

lemma output_refused_constructed:
  "CoreAudioIODevice_new output_refused ''out'' 9 0 7 0 = Inr output_refused_device"
proof -
  have "CoreAudioInternal_new duplex_view 9 = Inr (Internal (duplex_fresh\<lparr>deviceID := 9\<rparr>) None)"
    by (simp add: duplex_view_def duplex_fresh_def refresh_defs add_grid_fixed_4)
  then show ?thesis
    by (simp add: CoreAudioIODevice_new_def output_refused_def refused_constructed Let_def
        output_refused_device_def)
       (simp add: refused_core_def initial_core_def)
qed

lemma output_only_constructed:
  "CoreAudioIODevice_new (\<lambda>devID. duplex_view) ''out'' 0 (- 1) 7 0
     = Inr \<lparr>deviceName = ''out'', inputIndex = - 1, outputIndex = 0, isOpen' = False,
            isStarted = False, lastError = [], internal = Some (Internal duplex_fresh None)\<rparr>"
  by (simp add: CoreAudioIODevice_new_def duplex_constructed Let_def)
     (simp add: duplex_fresh_def)

theorem CoreAudioIODevice_new_distinct_ids_witness:
  "(7 :: AudioDeviceID) \<noteq> 0 \<and> (7 :: AudioDeviceID) \<noteq> 9
   \<and> CoreAudioIODevice_new input_refused ''out'' 9 0 7 0 = Inr input_refused_device
   \<and> lastError input_refused_device = []
   \<and> (\<exists>m s. internal input_refused_device
               = Some (Internal m (Some (Internal (s\<lparr>isSlaveDevice := True\<rparr>) None)))
          \<and> deviceID m = 7 \<and> deviceID s = 9)"
proof -
  have h: "(7 :: AudioDeviceID) \<noteq> 0" "(7 :: AudioDeviceID) \<noteq> 9"
    by simp_all
  from CoreAudioIODevice_new_distinct_ids [OF h input_refused_constructed]
  have "lastError input_refused_device = []
   \<and> (\<exists>m s. internal input_refused_device
               = Some (Internal m (Some (Internal (s\<lparr>isSlaveDevice := True\<rparr>) None)))
          \<and> deviceID m = 7 \<and> deviceID s = 9)"
    by auto
  with h input_refused_constructed show ?thesis by blast
qed

text \<open>
  Claim C5 as it is worded fails. Where the HAL refuses every read of the input device 9,
  the slave is attached all the same (with no channel and no sample rate) and the device
  is not output-only; where it refuses every read of the output device 7, the master is
  kept and \<open>lastError\<close> is empty.
\<close>
theorem CoreAudioIODevice_new_refused_counterexample:
  "CoreAudioIODevice_new input_refused ''out'' 9 0 7 0 = Inr input_refused_device
   \<and> lastError input_refused_device = []
   \<and> map_option inputDevice (internal input_refused_device)
       = Some (Some (Internal ((refused_core 9)\<lparr>isSlaveDevice := True\<rparr>) None))
   \<and> inChanNames (refused_core 9) = [] \<and> sampleRates (refused_core 9) = []
   \<and> CoreAudioIODevice_new output_refused ''out'' 9 0 7 0 = Inr output_refused_device
   \<and> lastError output_refused_device = []
   \<and> map_option this (internal output_refused_device) = Some (refused_core 7)
   \<and> outChanNames (refused_core 7) = [] \<and> sampleRates (refused_core 7) = []"
  by (simp add: input_refused_constructed output_refused_constructed)
     (simp add: input_refused_device_def output_refused_device_def refused_core_def
       initial_core_def)

end
